theory Spec2Isabelle
  imports Complex_Main
begin

section \<open>Values and errors\<close>

text \<open>
  The exceptions that \<^verbatim>\<open>training.py\<close> itself can raise: a Python division by zero, a
  method call on \<^verbatim>\<open>None\<close>, and an in-place division of \<^verbatim>\<open>None\<close>.
\<close>

datatype error = ZeroDivisionError | AttributeError | TypeError

text \<open>
  Python floats and numpy's \<^verbatim>\<open>float64\<close> are read as real numbers (no rounding, no
  overflow), together with the three special values that numpy produces, without
  raising, when a \<^verbatim>\<open>float64\<close> is divided by zero or the logarithm of a non-positive
  number is taken.
\<close>

datatype npfloat = Finite real | PosInf | NegInf | NaN

text \<open>\<^verbatim>\<open>np.log2(x)\<close> for a Python float \<^verbatim>\<open>x\<close>.\<close>

definition np_log2 :: "real \<Rightarrow> npfloat" where
  "np_log2 x = (if 0 < x then Finite (log 2 x) else if x = 0 then NegInf else NaN)"

text \<open>\<^verbatim>\<open>v / n\<close> for a \<^verbatim>\<open>float64\<close> \<^verbatim>\<open>v\<close> and a Python int \<^verbatim>\<open>n\<close>: numpy warns and
  continues where Python would raise.\<close>

fun np_div_int :: "npfloat \<Rightarrow> int \<Rightarrow> npfloat" where
  "np_div_int (Finite a) n =
     (if n \<noteq> 0 then Finite (a / real_of_int n)
      else if 0 < a then PosInf else if a < 0 then NegInf else NaN)"
| "np_div_int PosInf n = (if 0 \<le> n then PosInf else NegInf)"
| "np_div_int NegInf n = (if 0 \<le> n then NegInf else PosInf)"
| "np_div_int NaN n = NaN"

text \<open>\<^verbatim>\<open>np.power(2, v)\<close>.\<close>

fun np_power2 :: "npfloat \<Rightarrow> npfloat" where
  "np_power2 (Finite a) = Finite (2 powr a)"
| "np_power2 PosInf = PosInf"
| "np_power2 NegInf = Finite 0"
| "np_power2 NaN = NaN"

text \<open>\<^verbatim>\<open>v ** e\<close> for a \<^verbatim>\<open>float64\<close> \<^verbatim>\<open>v\<close> and a non-negative Python int \<^verbatim>\<open>e\<close>;
  the power with exponent zero is one for every base.\<close>

fun np_pow :: "npfloat \<Rightarrow> nat \<Rightarrow> npfloat" where
  "np_pow (Finite a) e = Finite (a ^ e)"
| "np_pow PosInf e = (if e = 0 then Finite 1 else PosInf)"
| "np_pow NegInf e = (if e = 0 then Finite 1 else if even e then PosInf else NegInf)"
| "np_pow NaN e = (if e = 0 then Finite 1 else NaN)"

text \<open>\<^verbatim>\<open>x * v\<close> for a Python float \<^verbatim>\<open>x\<close> and a \<^verbatim>\<open>float64\<close> \<^verbatim>\<open>v\<close>.\<close>

fun np_times :: "real \<Rightarrow> npfloat \<Rightarrow> npfloat" where
  "np_times x (Finite a) = Finite (x * a)"
| "np_times x PosInf = (if 0 < x then PosInf else if x < 0 then NegInf else NaN)"
| "np_times x NegInf = (if 0 < x then NegInf else if x < 0 then PosInf else NaN)"
| "np_times x NaN = NaN"

section \<open>Learning-rate curves\<close>

text \<open>
  Each \<^verbatim>\<open>lr_*_policy\<close> builds a closure \<^verbatim>\<open>_lr_fn(iteration, epoch)\<close>. The functions
  below are these closures, with the enclosing policy's arguments in front. Epochs
  and lengths are Python ints; \<^verbatim>\<open>/\<close> is true division and raises on a zero divisor.
\<close>

definition warmup_lr :: "real \<Rightarrow> int \<Rightarrow> int \<Rightarrow> error + npfloat" where
  \<comment> \<open>\<^verbatim>\<open>base_lr * (epoch + 1) / warmup_length\<close>\<close>
  "warmup_lr base_lr epoch warmup_length =
     (if warmup_length = 0 then Inl ZeroDivisionError
      else Inr (Finite (base_lr * real_of_int (epoch + 1) / real_of_int warmup_length)))"

text \<open>The loop \<^verbatim>\<open>for s in steps: if epoch >= s: lr *= decay_factor\<close>.\<close>

fun step_decay :: "real \<Rightarrow> int \<Rightarrow> real \<Rightarrow> int list \<Rightarrow> real" where
  "step_decay decay_factor epoch lr [] = lr"
| "step_decay decay_factor epoch lr (s # steps) =
     step_decay decay_factor epoch (if epoch \<ge> s then lr * decay_factor else lr) steps"

definition lr_step_policy ::
  "real \<Rightarrow> int list \<Rightarrow> real \<Rightarrow> int \<Rightarrow> nat \<Rightarrow> int \<Rightarrow> error + npfloat" where
  "lr_step_policy base_lr steps decay_factor warmup_length iteration epoch =
     (if epoch < warmup_length then warmup_lr base_lr epoch warmup_length
      else Inr (Finite (step_decay decay_factor epoch base_lr steps)))"

definition lr_linear_policy ::
  "real \<Rightarrow> int \<Rightarrow> int \<Rightarrow> nat \<Rightarrow> int \<Rightarrow> error + npfloat" where
  "lr_linear_policy base_lr warmup_length epochs iteration epoch =
     (if epoch < warmup_length then warmup_lr base_lr epoch warmup_length
      else
        let e = epoch - warmup_length;
            es = epochs - warmup_length
        in if es = 0 then Inl ZeroDivisionError
           else Inr (Finite (base_lr * (1 - real_of_int e / real_of_int es))))"

definition lr_cosine_policy ::
  "real \<Rightarrow> int \<Rightarrow> int \<Rightarrow> nat \<Rightarrow> int \<Rightarrow> error + npfloat" where
  "lr_cosine_policy base_lr warmup_length epochs iteration epoch =
     (if epoch < warmup_length then warmup_lr base_lr epoch warmup_length
      else
        let e = epoch - warmup_length;
            es = epochs - warmup_length
        in if es = 0 then Inl ZeroDivisionError
           else Inr (Finite (0.5 * (1 + cos (pi * real_of_int e / real_of_int es)) * base_lr)))"

text \<open>
  The exponential policy computes \<^verbatim>\<open>epoch_decay\<close> once, when the policy is built, in
  numpy arithmetic: a zero span \<^verbatim>\<open>es\<close> gives an infinity or a NaN there, not an exception.
\<close>

definition epoch_decay :: "int \<Rightarrow> int \<Rightarrow> real \<Rightarrow> npfloat" where
  "epoch_decay warmup_length epochs final_multiplier =
     (let es = epochs - warmup_length
      in np_power2 (np_div_int (np_log2 final_multiplier) es))"

definition lr_exponential_policy ::
  "real \<Rightarrow> int \<Rightarrow> int \<Rightarrow> real \<Rightarrow> nat \<Rightarrow> int \<Rightarrow> error + npfloat" where
  "lr_exponential_policy base_lr warmup_length epochs final_multiplier iteration epoch =
     (if epoch < warmup_length then warmup_lr base_lr epoch warmup_length
      else
        let e = epoch - warmup_length
        in Inr (np_times base_lr
                  (np_pow (epoch_decay warmup_length epochs final_multiplier) (nat e))))"

section \<open>Optimizer construction\<close>

text \<open>
  A tensor is the list of its entries. A parameter carries its values and its
  accumulated gradient \<^verbatim>\<open>param.grad\<close>, which is \<^verbatim>\<open>None\<close> as long as no backward pass has
  reached the parameter; a parameter group is one of the dictionaries of
  \<^verbatim>\<open>optimizer.param_groups\<close>, with the keys \<^verbatim>\<open>params\<close>, \<^verbatim>\<open>lr\<close>, \<^verbatim>\<open>momentum\<close>,
  \<^verbatim>\<open>weight_decay\<close> and \<^verbatim>\<open>nesterov\<close>. The optimizer is the list of its groups; the
  parameter tensors are shared with the model, which reads them from there.
\<close>

type_synonym tensor = "npfloat list"

record param =
  data :: tensor
  grad :: "tensor option"

record param_group =
  g_params :: "param list"
  g_lr :: npfloat
  g_momentum :: real
  g_weight_decay :: real
  g_nesterov :: bool

type_synonym optimizer = "param_group list"

text \<open>Python's \<^verbatim>\<open>sub in s\<close> on strings.\<close>

fun contains :: "string \<Rightarrow> string \<Rightarrow> bool" where
  "contains sub [] = (sub = [])"
| "contains sub (c # cs) = (take (length sub) (c # cs) = sub \<or> contains sub cs)"

text \<open>
  \<^verbatim>\<open>get_optimizer\<close>. \<^verbatim>\<open>parameters\<close> is the list of (name, tensor) pairs. A group that
  does not set a key gets the default handed to \<^verbatim>\<open>torch.optim.SGD\<close>. The branches for
  \<^verbatim>\<open>fp16\<close> are \<^verbatim>\<open>pass\<close>. \<^verbatim>\<open>optimizer.load_state_dict\<close> belongs to the tensor library and
  is a parameter here.
\<close>

definition get_optimizer ::
  "('s \<Rightarrow> optimizer \<Rightarrow> optimizer) \<Rightarrow> (string \<times> param) list \<Rightarrow> bool \<Rightarrow> real \<Rightarrow> real \<Rightarrow> real
   \<Rightarrow> bool \<Rightarrow> 's option \<Rightarrow> bool \<Rightarrow> optimizer" where
  "get_optimizer load_state_dict parameters fp16 lr0 momentum0 weight_decay0 nesterov0 state
     bn_weight_decay =
     (let built =
        (if bn_weight_decay then
           [\<lparr>g_params = map snd parameters, g_lr = Finite lr0, g_momentum = momentum0,
             g_weight_decay = weight_decay0, g_nesterov = nesterov0\<rparr>]
         else
           let bn_params = map snd (filter (\<lambda>(n, v). contains ''bn'' n) parameters);
               rest_params = map snd (filter (\<lambda>(n, v). \<not> contains ''bn'' n) parameters)
           in [\<lparr>g_params = bn_params, g_lr = Finite lr0, g_momentum = momentum0,
                 g_weight_decay = 0, g_nesterov = nesterov0\<rparr>,
               \<lparr>g_params = rest_params, g_lr = Finite lr0, g_momentum = momentum0,
                 g_weight_decay = weight_decay0, g_nesterov = nesterov0\<rparr>])
      in case state of None \<Rightarrow> built | Some st \<Rightarrow> load_state_dict st built)"

section \<open>The world of a training run\<close>

text \<open>
  The loops act on the optimizer and on external collaborators: the model, the
  tensor library, the distributed runtime, the metric logger and the checkpoint
  writer. The state of a run is the optimizer together with the trace of the calls
  made on the collaborators, in order; a backward pass is recorded with the parameter
  groups as it leaves them, a call of \<^verbatim>\<open>optimizer.step()\<close> with the groups it finds.
  Timing values (\<^verbatim>\<open>time.time()\<close>) and the values
  handed to \<^verbatim>\<open>log_metric\<close> are not part of the model; a logged metric is recorded by name.
\<close>

datatype logger = Logger

record checkpoint =
  ck_epoch :: int
  ck_best_prec1 :: real
  ck_optimizer :: optimizer

datatype 'b event =
    Register_metric string
  | Log_metric string
  | Iteration_generator_wrapper
  | Epoch_generator_wrapper
  | Logger_end
  | Train_mode
  | Eval_mode
  | Forward 'b
  | Backward optimizer
  | Optimizer_step optimizer
  | Zero_grad
  | Cuda_synchronize
  | Save_checkpoint checkpoint bool string "string option"
  | Plot_bin_hist

record 'b world =
  opt :: optimizer
  trace :: "'b event list"

definition emit :: "'b event list \<Rightarrow> 'b world \<Rightarrow> 'b world" where
  "emit es w = w\<lparr>trace := trace w @ es\<rparr>"

text \<open>
  What the collaborators compute. \<^verbatim>\<open>loss_of\<close> is the loss of \<^verbatim>\<open>model_and_loss\<close> on a
  batch and \<^verbatim>\<open>accuracy\<close> the pair of \<^verbatim>\<open>utils.accuracy(output, target, topk=(1, 5))\<close>, both
  for the current parameters; \<^verbatim>\<open>loss_backward\<close> is \<^verbatim>\<open>loss.backward()\<close>,
  \<^verbatim>\<open>optimizer_backward\<close> is \<^verbatim>\<open>optimizer.backward(loss)\<close> (a method that the optimizer may
  lack), \<^verbatim>\<open>optimizer_step\<close> and \<^verbatim>\<open>optimizer_zero_grad\<close> are the optimizer's methods;
  \<^verbatim>\<open>is_initialized\<close> and \<^verbatim>\<open>get_rank\<close> are the queries of \<^verbatim>\<open>torch.distributed\<close>;
  \<^verbatim>\<open>average_meter\<close> is \<^verbatim>\<open>get_val()\<close> of a \<^verbatim>\<open>log.AverageMeter\<close> after the given
  \<^verbatim>\<open>record(val, n)\<close> calls; the two wrappers are the logger's generators.
\<close>

record 'b env =
  loss_of :: "optimizer \<Rightarrow> 'b \<Rightarrow> real"
  accuracy :: "optimizer \<Rightarrow> 'b \<Rightarrow> real \<times> real"
  input_size :: "'b \<Rightarrow> nat"
  loss_backward :: "'b \<Rightarrow> optimizer \<Rightarrow> optimizer"
  optimizer_backward :: "'b \<Rightarrow> optimizer \<Rightarrow> error + optimizer"
  optimizer_step :: "optimizer \<Rightarrow> optimizer"
  optimizer_zero_grad :: "optimizer \<Rightarrow> optimizer"
  is_initialized :: bool
  get_rank :: int
  reduce_tensor :: "real \<Rightarrow> real"
  average_meter :: "(real \<times> nat) list \<Rightarrow> real"
  iteration_generator_wrapper :: "bool \<Rightarrow> (nat \<times> 'b) list \<Rightarrow> (nat \<times> 'b) list"
  epoch_generator_wrapper :: "int list \<Rightarrow> int list"

section \<open>Learning-rate policy\<close>

text \<open>
  \<^verbatim>\<open>lr_policy(lr_fn, logger)\<close> registers the metric and returns the closure \<^verbatim>\<open>_alr\<close>. A
  scheduler is represented by what \<^verbatim>\<open>_alr\<close> closes over.
\<close>

record scheduler =
  lr_fn :: "nat \<Rightarrow> int \<Rightarrow> error + npfloat"
  sched_logger :: "logger option"

definition lr_policy ::
  "(nat \<Rightarrow> int \<Rightarrow> error + npfloat) \<Rightarrow> logger option \<Rightarrow> 'b world \<Rightarrow> scheduler \<times> 'b world" where
  "lr_policy f logger w =
     (\<lparr>lr_fn = f, sched_logger = logger\<rparr>,
      if logger \<noteq> None then emit [Register_metric ''lr''] w else w)"

definition set_lr :: "npfloat \<Rightarrow> optimizer \<Rightarrow> optimizer" where
  "set_lr v gs = map (\<lambda>g. g\<lparr>g_lr := v\<rparr>) gs"

definition alr :: "scheduler \<Rightarrow> nat \<Rightarrow> int \<Rightarrow> 'b world \<Rightarrow> error option \<times> 'b world" where
  "alr sched iteration epoch w =
     (case lr_fn sched iteration epoch of
        Inl e \<Rightarrow> (Some e, w)
      | Inr v \<Rightarrow>
          let w1 = (if sched_logger sched \<noteq> None then emit [Log_metric ''lr''] w else w)
          in (None, w1\<lparr>opt := set_lr v (opt w1)\<rparr>))"

section \<open>Train step and train epoch loop\<close>

text \<open>
  The loops \<^verbatim>\<open>for param_group in opt.param_groups: for param in param_group['params']:
  param.grad /= batch_size_multiplier\<close>. The division is in place, parameter after
  parameter; on a parameter without a gradient Python raises \<^verbatim>\<open>TypeError\<close>, and the
  parameters before it keep their divided gradients.
\<close>

fun scale_params :: "int \<Rightarrow> param list \<Rightarrow> error option \<times> param list" where
  "scale_params m [] = (None, [])"
| "scale_params m (p # ps) =
     (case grad p of
        None \<Rightarrow> (Some TypeError, p # ps)
      | Some t \<Rightarrow>
          (case scale_params m ps of
             (e, ps') \<Rightarrow> (e, p\<lparr>grad := Some (map (\<lambda>x. np_div_int x m) t)\<rparr> # ps')))"

fun scale_grads :: "int \<Rightarrow> optimizer \<Rightarrow> error option \<times> optimizer" where
  "scale_grads m [] = (None, [])"
| "scale_grads m (g # gs) =
     (case scale_params m (g_params g) of
        (Some e, ps') \<Rightarrow> (Some e, g\<lparr>g_params := ps'\<rparr> # gs)
      | (None, ps') \<Rightarrow>
          (case scale_grads m gs of
             (e, gs') \<Rightarrow> (e, g\<lparr>g_params := ps'\<rparr> # gs')))"

text \<open>
  The backward pass of the train step: \<^verbatim>\<open>optimizer.backward(loss)\<close> under \<^verbatim>\<open>fp16\<close>,
  nothing under \<^verbatim>\<open>use_amp\<close> (the branch is \<^verbatim>\<open>pass\<close>, so the gradients stay as they
  are), \<^verbatim>\<open>loss.backward()\<close> otherwise.
\<close>

definition backward_pass :: "'b env \<Rightarrow> bool \<Rightarrow> bool \<Rightarrow> 'b \<Rightarrow> 'b world \<Rightarrow> error + 'b world" where
  "backward_pass env fp16 use_amp b w =
     (if fp16 then
        (case optimizer_backward env b (opt w) of
           Inl e \<Rightarrow> Inl e
         | Inr gs \<Rightarrow> Inr (emit [Backward gs] (w\<lparr>opt := gs\<rparr>)))
      else if use_amp then Inr w
      else
        let gs = loss_backward env b (opt w)
        in Inr (emit [Backward gs] (w\<lparr>opt := gs\<rparr>)))"

text \<open>
  The closure \<^verbatim>\<open>_step(input, target, optimizer_step)\<close> of \<^verbatim>\<open>get_train_step\<close>; a batch
  \<open>b\<close> is the pair of input and target. It returns \<^verbatim>\<open>(reduced_loss, prec1, prec5)\<close>,
  the two accuracies being \<^verbatim>\<open>torch.zeros(1)\<close>; an exception of the backward pass or of
  the division of the gradients leaves the step at once.
\<close>

definition get_train_step ::
  "'b env \<Rightarrow> bool \<Rightarrow> bool \<Rightarrow> int \<Rightarrow> 'b \<Rightarrow> bool \<Rightarrow> 'b world
   \<Rightarrow> (error + real \<times> real \<times> real) \<times> 'b world" where
  "get_train_step env fp16 use_amp batch_size_multiplier b do_optimizer_step w =
     (let loss = loss_of env (opt w) b;
          w1 = emit [Forward b] w;
          prec1 = 0;
          prec5 = 0;
          reduced_loss = (if is_initialized env then reduce_tensor env loss else loss)
      in case backward_pass env fp16 use_amp b w1 of
           Inl e \<Rightarrow> (Inl e, w1)
         | Inr w2 \<Rightarrow>
             if do_optimizer_step then
               (case scale_grads batch_size_multiplier (opt w2) of
                  (Some e, gs) \<Rightarrow> (Inl e, w2\<lparr>opt := gs\<rparr>)
                | (None, scaled) \<Rightarrow>
                    let w_step = emit [Optimizer_step scaled]
                                   (w2\<lparr>opt := optimizer_step env scaled\<rparr>);
                        w3 = emit [Zero_grad]
                               (w_step\<lparr>opt := optimizer_zero_grad env (opt w_step)\<rparr>)
                    in (Inr (reduced_loss, prec1, prec5), emit [Cuda_synchronize] w3))
             else (Inr (reduced_loss, prec1, prec5), emit [Cuda_synchronize] w2))"

definition train_metrics :: "string list" where
  "train_metrics = [''train.top1'', ''train.top5'', ''train.loss'', ''train.compute_ips'',
                    ''train.total_ips'', ''train.data_time'', ''train.compute_time'']"

text \<open>The \<^verbatim>\<open>for i, (input, target) in data_iter\<close> loop of \<^verbatim>\<open>train\<close>.\<close>

fun train_batches ::
  "'b env \<Rightarrow> scheduler \<Rightarrow> bool \<Rightarrow> logger option \<Rightarrow> int \<Rightarrow> bool \<Rightarrow> int \<Rightarrow> int
   \<Rightarrow> (nat \<times> 'b) list \<Rightarrow> 'b world \<Rightarrow> error option \<times> 'b world" where
  "train_batches env lr_scheduler fp16 logger epoch use_amp prof batch_size_multiplier [] w =
     (None, w)"
| "train_batches env lr_scheduler fp16 logger epoch use_amp prof batch_size_multiplier
     ((i, b) # rest) w =
     (case alr lr_scheduler i epoch w of
        (Some e, w1) \<Rightarrow> (Some e, w1)
      | (None, w1) \<Rightarrow>
          if prof > 0 \<and> int i \<ge> prof then (None, w1)
          else if batch_size_multiplier = 0 then (Some ZeroDivisionError, w1)
          else
            let do_optimizer_step = ((int i + 1) mod batch_size_multiplier = 0)
            in (case get_train_step env fp16 use_amp batch_size_multiplier b do_optimizer_step w1 of
                  (Inl e, w2) \<Rightarrow> (Some e, w2)
                | (Inr (loss, prec1, prec5), w2) \<Rightarrow>
                    let w3 = (if logger \<noteq> None then emit (map Log_metric train_metrics) w2 else w2)
                    in train_batches env lr_scheduler fp16 logger epoch use_amp prof
                         batch_size_multiplier rest w3))"

definition train ::
  "'b list \<Rightarrow> 'b env \<Rightarrow> scheduler \<Rightarrow> bool \<Rightarrow> logger option \<Rightarrow> int \<Rightarrow> bool \<Rightarrow> int \<Rightarrow> int \<Rightarrow> bool
   \<Rightarrow> 'b world \<Rightarrow> error option \<times> 'b world" where
  "train train_loader env lr_scheduler fp16 logger epoch use_amp prof batch_size_multiplier
     register_metrics w =
     (let w1 = (if register_metrics \<and> logger \<noteq> None
                then emit (map Register_metric train_metrics) w else w);
          w2 = emit [Train_mode] w1;
          w3 = emit [Zero_grad] (w2\<lparr>opt := optimizer_zero_grad env (opt w2)\<rparr>);
          data_iter = enumerate 0 train_loader
      in if logger \<noteq> None then
           train_batches env lr_scheduler fp16 logger epoch use_amp prof batch_size_multiplier
             (iteration_generator_wrapper env False data_iter) (emit [Iteration_generator_wrapper] w3)
         else
           train_batches env lr_scheduler fp16 logger epoch use_amp prof batch_size_multiplier
             data_iter w3)"

section \<open>Validation step and validate epoch loop\<close>

text \<open>The closure \<^verbatim>\<open>_step(input, target)\<close> of \<^verbatim>\<open>get_val_step\<close>.\<close>

definition get_val_step :: "'b env \<Rightarrow> 'b \<Rightarrow> 'b world \<Rightarrow> (real \<times> real \<times> real) \<times> 'b world" where
  "get_val_step env b w =
     (let loss = loss_of env (opt w) b;
          w1 = emit [Forward b] w;
          (prec1, prec5) = accuracy env (opt w) b;
          result =
            (if is_initialized env
             then (reduce_tensor env loss, reduce_tensor env prec1, reduce_tensor env prec5)
             else (loss, prec1, prec5))
      in (result, emit [Cuda_synchronize] w1))"

definition val_metrics :: "string list" where
  "val_metrics = [''val.top1'', ''val.top5'', ''val.loss'', ''val.compute_ips'',
                  ''val.total_ips'', ''val.data_time'', ''val.compute_time'']"

text \<open>
  The \<^verbatim>\<open>for i, (input, target) in data_iter\<close> loop of \<^verbatim>\<open>validate\<close>; \<open>top1\<close> is the list
  of the \<^verbatim>\<open>top1.record(prec1.item(), bs)\<close> calls made so far.
\<close>

fun validate_batches ::
  "'b env \<Rightarrow> logger option \<Rightarrow> int \<Rightarrow> (nat \<times> 'b) list \<Rightarrow> (real \<times> nat) list \<Rightarrow> 'b world
   \<Rightarrow> (real \<times> nat) list \<times> 'b world" where
  "validate_batches env logger prof [] top1 w = (top1, w)"
| "validate_batches env logger prof ((i, b) # rest) top1 w =
     (let bs = input_size env b
      in if prof > 0 \<and> int i > prof then (top1, w)
         else
           (case get_val_step env b w of
              ((loss, prec1, prec5), w1) \<Rightarrow>
                let top1' = top1 @ [(prec1, bs)];
                    w2 = (if logger \<noteq> None then emit (map Log_metric val_metrics) w1 else w1)
                in validate_batches env logger prof rest top1' w2))"

definition validate ::
  "'b list \<Rightarrow> 'b env \<Rightarrow> bool \<Rightarrow> logger option \<Rightarrow> int \<Rightarrow> int \<Rightarrow> bool \<Rightarrow> 'b world
   \<Rightarrow> real \<times> 'b world" where
  "validate val_loader env fp16 logger epoch prof register_metrics w =
     (let w1 = (if register_metrics \<and> logger \<noteq> None
                then emit (map Register_metric val_metrics) w else w);
          w2 = emit [Eval_mode] w1;
          data_iter = enumerate 0 val_loader;
          (top1, w3) =
            (if logger \<noteq> None then
               validate_batches env logger prof (iteration_generator_wrapper env True data_iter) []
                 (emit [Iteration_generator_wrapper] w2)
             else validate_batches env logger prof data_iter [] w2)
      in (average_meter env top1, w3))"

section \<open>The epoch orchestrator\<close>

text \<open>Python's \<^verbatim>\<open>'{}'.format(k)\<close> for an int.\<close>

fun str_nat :: "nat \<Rightarrow> string" where
  "str_nat n =
     (if n < 10 then [''0123456789'' ! n]
      else str_nat (n div 10) @ [''0123456789'' ! (n mod 10)])"

declare str_nat.simps [simp del]

definition str_int :: "int \<Rightarrow> string" where
  "str_int k = (if k < 0 then CHR ''-'' # str_nat (nat (- k)) else str_nat (nat k))"

text \<open>
  The checkpoint block of the loop body, on the accuracy \<^verbatim>\<open>prec1\<close> of this epoch and the
  best accuracy so far; it returns the new best accuracy. The checkpoint dictionary
  keeps the epoch, the best accuracy and the optimizer (whose groups hold the model's
  parameters).
\<close>

definition save_phase ::
  "'b env \<Rightarrow> (int \<Rightarrow> bool) \<Rightarrow> bool \<Rightarrow> bool \<Rightarrow> string \<Rightarrow> int \<Rightarrow> real \<Rightarrow> real \<Rightarrow> 'b world
   \<Rightarrow> real \<times> 'b world" where
  "save_phase env should_backup_checkpoint skip_training save_checkpoints checkpoint_dir epoch
     prec1 best_prec1 w =
     (if save_checkpoints \<and> (\<not> is_initialized env \<or> get_rank env = 0) then
        (if \<not> skip_training then
           let is_best = (prec1 > best_prec1);
               best_new = max prec1 best_prec1;
               backup_filename =
                 (if should_backup_checkpoint epoch
                  then Some (''checkpoint-'' @ str_int (epoch + 1) @ ''.pth.tar'')
                  else None)
           in (best_new,
               emit [Save_checkpoint
                       \<lparr>ck_epoch = epoch + 1, ck_best_prec1 = best_new, ck_optimizer = opt w\<rparr>
                       is_best checkpoint_dir backup_filename] w)
         else (best_prec1, w))
      else (best_prec1, w))"

text \<open>
  The last statement of the loop body: \<^verbatim>\<open>logger.end()\<close> on the coordinator. It has no
  guard: on \<^verbatim>\<open>None\<close> it raises.
\<close>

definition end_phase :: "'b env \<Rightarrow> logger option \<Rightarrow> 'b world \<Rightarrow> error option \<times> 'b world" where
  "end_phase env logger w =
     (if \<not> is_initialized env \<or> get_rank env = 0 then
        (case logger of
           None \<Rightarrow> (Some AttributeError, w)
         | Some l \<Rightarrow> (None, emit [Logger_end] w))
      else (None, w))"

text \<open>
  One pass of the body of \<^verbatim>\<open>for epoch in epoch_iter\<close> in \<^verbatim>\<open>train_loop\<close>, on the pair of
  the loop variables \<^verbatim>\<open>prec1\<close> and \<^verbatim>\<open>best_prec1\<close>.
\<close>

definition train_loop_epoch ::
  "'b env \<Rightarrow> scheduler \<Rightarrow> 'b list \<Rightarrow> 'b list \<Rightarrow> bool \<Rightarrow> logger option \<Rightarrow> (int \<Rightarrow> bool) \<Rightarrow> bool
   \<Rightarrow> int \<Rightarrow> int \<Rightarrow> int \<Rightarrow> bool \<Rightarrow> bool \<Rightarrow> bool \<Rightarrow> string \<Rightarrow> int \<Rightarrow> real \<times> real \<Rightarrow> 'b world
   \<Rightarrow> error option \<times> (real \<times> real) \<times> 'b world" where
  "train_loop_epoch env lr_scheduler train_loader val_loader fp16 logger should_backup_checkpoint
     use_amp batch_size_multiplier start_epoch prof skip_training skip_validation save_checkpoints
     checkpoint_dir epoch pb w =
     (let prec1 = fst pb;
          best_prec1 = snd pb;
          trained =
            (if \<not> skip_training then
               train train_loader env lr_scheduler fp16 logger epoch use_amp prof
                 batch_size_multiplier (epoch = start_epoch) w
             else (None, w))
      in case trained of
           (Some e, w1) \<Rightarrow> (Some e, (prec1, best_prec1), w1)
         | (None, w1) \<Rightarrow>
             let (prec1', w2) =
                   (if \<not> skip_validation then
                      validate val_loader env fp16 logger epoch prof (epoch = start_epoch) w1
                    else (prec1, w1));
                 (best_prec1', w3) =
                   save_phase env should_backup_checkpoint skip_training save_checkpoints
                     checkpoint_dir epoch prec1' best_prec1 w2;
                 (err, w4) = end_phase env logger w3
             in (err, (prec1', best_prec1'), w4))"

fun train_loop_epochs ::
  "'b env \<Rightarrow> scheduler \<Rightarrow> 'b list \<Rightarrow> 'b list \<Rightarrow> bool \<Rightarrow> logger option \<Rightarrow> (int \<Rightarrow> bool) \<Rightarrow> bool
   \<Rightarrow> int \<Rightarrow> int \<Rightarrow> int \<Rightarrow> bool \<Rightarrow> bool \<Rightarrow> bool \<Rightarrow> string \<Rightarrow> int list \<Rightarrow> real \<times> real \<Rightarrow> 'b world
   \<Rightarrow> error option \<times> (real \<times> real) \<times> 'b world" where
  "train_loop_epochs env lr_scheduler train_loader val_loader fp16 logger should_backup_checkpoint
     use_amp batch_size_multiplier start_epoch prof skip_training skip_validation save_checkpoints
     checkpoint_dir [] pb w = (None, pb, w)"
| "train_loop_epochs env lr_scheduler train_loader val_loader fp16 logger should_backup_checkpoint
     use_amp batch_size_multiplier start_epoch prof skip_training skip_validation save_checkpoints
     checkpoint_dir (epoch # rest) pb w =
     (case train_loop_epoch env lr_scheduler train_loader val_loader fp16 logger
             should_backup_checkpoint use_amp batch_size_multiplier start_epoch prof skip_training
             skip_validation save_checkpoints checkpoint_dir epoch pb w of
        (Some e, pb', w') \<Rightarrow> (Some e, pb', w')
      | (None, pb', w') \<Rightarrow>
          train_loop_epochs env lr_scheduler train_loader val_loader fp16 logger
            should_backup_checkpoint use_amp batch_size_multiplier start_epoch prof skip_training
            skip_validation save_checkpoints checkpoint_dir rest pb' w')"

text \<open>
  \<^verbatim>\<open>train_loop\<close>. The loaders yield the same batches in every epoch; \<^verbatim>\<open>debug_loader\<close> is
  used by disabled code only and is left out. \<^verbatim>\<open>range(start_epoch, epochs)\<close> is
  \<open>[start_epoch..epochs - 1]\<close>.
\<close>

definition train_loop ::
  "'b env \<Rightarrow> scheduler \<Rightarrow> 'b list \<Rightarrow> 'b list \<Rightarrow> int \<Rightarrow> bool \<Rightarrow> logger option \<Rightarrow> (int \<Rightarrow> bool)
   \<Rightarrow> bool \<Rightarrow> int \<Rightarrow> real \<Rightarrow> int \<Rightarrow> int \<Rightarrow> bool \<Rightarrow> bool \<Rightarrow> bool \<Rightarrow> string \<Rightarrow> 'b world
   \<Rightarrow> error option \<times> 'b world" where
  "train_loop env lr_scheduler train_loader val_loader epochs fp16 logger should_backup_checkpoint
     use_amp batch_size_multiplier best_prec1 start_epoch prof skip_training skip_validation
     save_checkpoints checkpoint_dir w =
     (let prec1 = - 1;
          epoch_range = [start_epoch..epochs - 1];
          (epoch_iter, w1) =
            (if logger \<noteq> None
             then (epoch_generator_wrapper env epoch_range, emit [Epoch_generator_wrapper] w)
             else (epoch_range, w))
      in case train_loop_epochs env lr_scheduler train_loader val_loader fp16 logger
                should_backup_checkpoint use_amp batch_size_multiplier start_epoch prof
                skip_training skip_validation save_checkpoints checkpoint_dir epoch_iter
                (prec1, best_prec1) w1 of
           (Some e, pb, w2) \<Rightarrow> (Some e, w2)
         | (None, pb, w2) \<Rightarrow> (None, if skip_training then emit [Plot_bin_hist] w2 else w2))"

section \<open>Observations on a trace\<close>

text \<open>The calls made between the world \<open>w\<close> and a later world \<open>w'\<close>.\<close>

definition events_since :: "'b world \<Rightarrow> 'b world \<Rightarrow> 'b event list" where
  "events_since w w' = drop (length (trace w)) (trace w')"

text \<open>The gradients of all parameters, group by group.\<close>

definition grads :: "optimizer \<Rightarrow> tensor option list list" where
  "grads gs = map (\<lambda>g. map grad (g_params g)) gs"

text \<open>Every parameter has a gradient.\<close>

definition has_grads :: "optimizer \<Rightarrow> bool" where
  "has_grads gs = list_all (\<lambda>g. list_all (\<lambda>p. grad p \<noteq> None) (g_params g)) gs"

text \<open>
  The groups \<open>gs'\<close> carry the gradients of the groups \<open>gs\<close>, all of them present, with
  every entry divided by \<open>m\<close>.
\<close>

definition divided :: "int \<Rightarrow> optimizer \<Rightarrow> optimizer \<Rightarrow> bool" where
  "divided m gs gs' =
     (has_grads gs
      \<and> grads gs' = map (map (map_option (map (\<lambda>x. np_div_int x m)))) (grads gs))"

text \<open>
  Every call of \<^verbatim>\<open>optimizer.step()\<close> in the trace comes right after a backward pass,
  finds the gradients that this backward pass left divided by \<open>m\<close>, and is followed at
  once by \<^verbatim>\<open>optimizer.zero_grad()\<close>. The argument \<open>prev\<close> holds the groups left by the
  backward pass when the event before the trace was one.
\<close>

fun divided_updates :: "int \<Rightarrow> optimizer option \<Rightarrow> 'b event list \<Rightarrow> bool" where
  "divided_updates m prev [] = True"
| "divided_updates m prev (Optimizer_step gs' # es) =
     ((case prev of None \<Rightarrow> False | Some gs \<Rightarrow> divided m gs gs')
      \<and> (case es of Zero_grad # es' \<Rightarrow> True | _ \<Rightarrow> False)
      \<and> divided_updates m None es)"
| "divided_updates m prev (Backward gs # es) = divided_updates m (Some gs) es"
| "divided_updates m prev (e # es) = divided_updates m None es"

text \<open>The batches handed to \<^verbatim>\<open>model_and_loss\<close>, in order.\<close>

fun forwarded :: "'b event list \<Rightarrow> 'b list" where
  "forwarded [] = []"
| "forwarded (Forward b # es) = b # forwarded es"
| "forwarded (e # es) = forwarded es"

text \<open>
  The zero-based positions, among the batches handed to the model, after which
  \<^verbatim>\<open>optimizer.step()\<close> was called; \<open>n\<close> counts the batches seen before the trace.
\<close>

fun update_indices :: "nat \<Rightarrow> 'b event list \<Rightarrow> nat list" where
  "update_indices n [] = []"
| "update_indices n (Forward b # es) = update_indices (Suc n) es"
| "update_indices n (Optimizer_step gs # es) = (n - 1) # update_indices n es"
| "update_indices n (e # es) = update_indices n es"


text \<open>The calls made on the metric logger.\<close>

fun logger_event :: "'b event \<Rightarrow> bool" where
  "logger_event (Register_metric n) = True"
| "logger_event (Log_metric n) = True"
| "logger_event Iteration_generator_wrapper = True"
| "logger_event Epoch_generator_wrapper = True"
| "logger_event Logger_end = True"
| "logger_event e = False"

text \<open>The \<^verbatim>\<open>best_prec1\<close> entry and the \<^verbatim>\<open>is_best\<close> flag of every saved checkpoint, in order.\<close>

fun saved :: "'b event list \<Rightarrow> (real \<times> bool) list" where
  "saved [] = []"
| "saved (Save_checkpoint ck is_best dir backup # es) = (ck_best_prec1 ck, is_best) # saved es"
| "saved (e # es) = saved es"

text \<open>No checkpoint is saved between the world \<open>w\<close> and a later world \<open>w'\<close>.\<close>

definition quiet :: "'b world \<Rightarrow> 'b world \<Rightarrow> bool" where
  "quiet w w' =
     (take (length (trace w)) (trace w') = trace w \<and> saved (events_since w w') = [])"

text \<open>
  A chain of saved checkpoints that starts from the best value \<open>b\<close>: the best value
  never decreases, and a checkpoint is flagged exactly when it raises the best value.
\<close>

fun best_chain :: "real \<Rightarrow> (real \<times> bool) list \<Rightarrow> bool" where
  "best_chain b [] = True"
| "best_chain b ((b', is_best) # rest) = (b \<le> b' \<and> (is_best = (b < b')) \<and> best_chain b' rest)"

section \<open>An example environment\<close>

text \<open>
  A small instance of the collaborators, with batches numbered by naturals, for
  running the loops on concrete inputs: the loss of batch \<open>b\<close> is \<open>b\<close>, its top-1
  accuracy is \<open>b\<close>, a backward pass leaves the gradient 8 on every parameter, the
  optimizer has no \<^verbatim>\<open>backward\<close> method (as \<^verbatim>\<open>torch.optim.SGD\<close>), no process group is
  initialised, and the logger's wrappers pass their items through. The example world
  has one parameter, without a gradient yet.
\<close>

definition example_env :: "nat env" where
  "example_env =
     \<lparr>loss_of = (\<lambda>gs b. real b),
      accuracy = (\<lambda>gs b. (real b, 100)),
      input_size = (\<lambda>b. 1),
      loss_backward =
        (\<lambda>b gs. map (\<lambda>g. g\<lparr>g_params := map (\<lambda>p. p\<lparr>grad := Some [Finite 8]\<rparr>) (g_params g)\<rparr>) gs),
      optimizer_backward = (\<lambda>b gs. Inl AttributeError),
      optimizer_step = (\<lambda>gs. gs),
      optimizer_zero_grad = (\<lambda>gs. gs),
      is_initialized = False,
      get_rank = 0,
      reduce_tensor = (\<lambda>x. x),
      average_meter = (\<lambda>rs. if rs = [] then 0 else sum_list (map fst rs) / real (length rs)),
      iteration_generator_wrapper = (\<lambda>val xs. xs),
      epoch_generator_wrapper = (\<lambda>xs. xs)\<rparr>"

definition example_scheduler :: scheduler where
  "example_scheduler = \<lparr>lr_fn = lr_step_policy 1 [30, 60] (1 / 10) 0, sched_logger = None\<rparr>"

definition example_world :: "nat world" where
  "example_world =
     \<lparr>opt = [\<lparr>g_params = [\<lparr>data = [Finite 1], grad = None\<rparr>], g_lr = Finite 1,
              g_momentum = 0, g_weight_decay = 0, g_nesterov = False\<rparr>],
      trace = []\<rparr>"

section \<open>Properties of the learning-rate curves\<close>

lemma epoch_decay_finite:
  assumes "0 < fm" and "es \<noteq> 0" and "es = epochs - w"
  shows "epoch_decay w epochs fm = Finite (2 powr (log 2 fm / real_of_int es))"
  using assms by (simp add: epoch_decay_def np_log2_def)

lemma decay_power:
  assumes "0 < fm" and "es \<noteq> 0"
  shows "(2 powr (log 2 fm / real_of_int es)) ^ n = fm powr (real n / real_of_int es)"
proof -
  have "(2 powr (log 2 fm / real_of_int es)) ^ n
        = (2 powr (log 2 fm / real_of_int es)) powr real n"
    by (simp add: powr_realpow)
  also have "\<dots> = 2 powr (log 2 fm * (real n / real_of_int es))"
    by (simp add: powr_powr)
  also have "\<dots> = (2 powr log 2 fm) powr (real n / real_of_int es)"
    by (simp add: powr_powr)
  also have "\<dots> = fm powr (real n / real_of_int es)"
    using assms by simp
  finally show ?thesis .
qed

lemma log2_quarter: "log 2 (1 / 4) = - 2"
proof -
  have "log 2 (1 / 4) = log 2 (2 powr (- 2))"
    by (simp add: powr_minus_divide)
  then show ?thesis
    by (simp only: log_powr_cancel)
qed

text \<open>
  C4, as stated, fails: with \<^verbatim>\<open>base_lr = 1\<close>, \<^verbatim>\<open>warmup_length = 0\<close>, \<^verbatim>\<open>epochs = 2\<close> and
  \<^verbatim>\<open>final_multiplier = 1/4\<close> the decay constant is \<open>1/2\<close>, and the learning rate of the
  final epoch (index \<open>epochs - 1 = 1\<close>) is \<open>1/2\<close>, at distance \<open>1/4\<close> from
  \<^verbatim>\<open>base_lr * final_multiplier = 1/4\<close>.
\<close>

theorem exponential_final_epoch_counterexample:
  "lr_exponential_policy 1 0 2 (1 / 4) 0 (2 - 1) = Inr (Finite (1 / 2))
   \<and> \<bar>1 / 2 - 1 * (1 / 4)\<bar> = (1 / 4 :: real)"
  by (simp add: lr_exponential_policy_def epoch_decay_def np_log2_def log2_quarter
        powr_minus_divide)

text \<open>
  C4, amended: for \<^verbatim>\<open>warmup_length < epochs\<close> and a positive \<^verbatim>\<open>final_multiplier\<close>, the
  exponential curve gives, at the final epoch \<open>epochs - 1\<close>, the learning rate
  \<open>base_lr * final_multiplier powr ((es - 1) / es)\<close> with \<open>es = epochs - warmup_length\<close>;
  the value \<open>base_lr * final_multiplier\<close> is the one computed for the epoch index
  \<open>epochs\<close>, one past the final epoch.
\<close>

theorem exponential_final_epoch:
  assumes "warmup_length < epochs" and "0 < final_multiplier"
  shows "lr_exponential_policy base_lr warmup_length epochs final_multiplier iteration (epochs - 1)
           = Inr (Finite (base_lr * final_multiplier powr
                   (real_of_int (epochs - warmup_length - 1) / real_of_int (epochs - warmup_length))))
         \<and> lr_exponential_policy base_lr warmup_length epochs final_multiplier iteration epochs
           = Inr (Finite (base_lr * final_multiplier))"
proof -
  let ?es = "epochs - warmup_length"
  have es: "?es \<noteq> 0"
    using assms by simp
  have d: "epoch_decay warmup_length epochs final_multiplier
           = Finite (2 powr (log 2 final_multiplier / real_of_int ?es))"
    by (rule epoch_decay_finite[OF assms(2) es refl])
  have n1: "real (nat (epochs - 1 - warmup_length)) = real_of_int (epochs - warmup_length - 1)"
    using assms by simp
  have n2: "real (nat (epochs - warmup_length)) = real_of_int ?es"
    using assms by simp
  have a: "lr_exponential_policy base_lr warmup_length epochs final_multiplier iteration (epochs - 1)
           = Inr (Finite (base_lr * final_multiplier powr
                   (real_of_int (epochs - warmup_length - 1) / real_of_int ?es)))"
    using assms unfolding lr_exponential_policy_def d Let_def
    by (simp add: decay_power[OF assms(2) es] n1 del: of_int_diff)
  have b: "lr_exponential_policy base_lr warmup_length epochs final_multiplier iteration epochs
           = Inr (Finite (base_lr * final_multiplier))"
    using assms unfolding lr_exponential_policy_def d Let_def
    by (simp add: decay_power[OF assms(2) es] n2 del: of_int_diff)
  from a b show ?thesis by simp
qed

theorem exponential_final_epoch_witness:
  "(0::int) < 1 \<and> (0::real) < 1 / 4
   \<and> lr_exponential_policy 1 0 1 (1 / 4) 0 (1 - 1) = Inr (Finite (1 * (1 / 4) powr (real_of_int (1 - 0 - 1) / real_of_int (1 - 0))))
   \<and> lr_exponential_policy 1 0 1 (1 / 4) 0 1 = Inr (Finite (1 * (1 / 4)))"
  using exponential_final_epoch [of 0 1 "1 / 4" 1 0] by simp

text \<open>
  C5: in the warmup range \<open>epoch < warmup_length\<close> each of the four curves returns
  \<open>base_lr * (epoch + 1) / warmup_length\<close>, whatever its other parameters are. The
  quotient is defined for a non-zero \<^verbatim>\<open>warmup_length\<close> only, which every non-negative
  epoch of the warmup range guarantees.
\<close>

theorem warmup_all_curves:
  assumes "epoch < warmup_length" and "warmup_length \<noteq> 0"
  shows "lr_step_policy base_lr steps decay_factor warmup_length iteration epoch
           = Inr (Finite (base_lr * real_of_int (epoch + 1) / real_of_int warmup_length))
         \<and> lr_linear_policy base_lr warmup_length epochs iteration epoch
           = Inr (Finite (base_lr * real_of_int (epoch + 1) / real_of_int warmup_length))
         \<and> lr_cosine_policy base_lr warmup_length epochs iteration epoch
           = Inr (Finite (base_lr * real_of_int (epoch + 1) / real_of_int warmup_length))
         \<and> lr_exponential_policy base_lr warmup_length epochs final_multiplier iteration epoch
           = Inr (Finite (base_lr * real_of_int (epoch + 1) / real_of_int warmup_length))"
  using assms
  by (simp add: lr_step_policy_def lr_linear_policy_def lr_cosine_policy_def
        lr_exponential_policy_def warmup_lr_def)

theorem warmup_all_curves_witness:
  "(1::int) < 5 \<and> (5::int) \<noteq> 0
   \<and> lr_step_policy 1 [30, 60] (1 / 10) 5 0 1 = Inr (Finite (1 * real_of_int (1 + 1) / real_of_int 5))
   \<and> lr_linear_policy 1 5 90 0 1 = Inr (Finite (1 * real_of_int (1 + 1) / real_of_int 5))
   \<and> lr_cosine_policy 1 5 90 0 1 = Inr (Finite (1 * real_of_int (1 + 1) / real_of_int 5))
   \<and> lr_exponential_policy 1 5 90 (1 / 1000) 0 1 = Inr (Finite (1 * real_of_int (1 + 1) / real_of_int 5))"
  using warmup_all_curves [of 1 5 1 "[30, 60]" "1 / 10" 0 90 "1 / 1000"] by simp

text \<open>
  C8, as stated, fails: with \<^verbatim>\<open>warmup_length = 0\<close> the warmup branch is skipped, but the
  linear curve then divides by the span \<^verbatim>\<open>es = epochs - warmup_length\<close>, which is zero
  for \<^verbatim>\<open>epochs = 0\<close>: evaluating it at epoch 0 raises \<^verbatim>\<open>ZeroDivisionError\<close>.
\<close>

theorem zero_warmup_counterexample:
  "lr_linear_policy 1 0 0 0 0 = Inl ZeroDivisionError"
  by (simp add: lr_linear_policy_def)

text \<open>
  C8, amended: with \<^verbatim>\<open>warmup_length = 0\<close> and an epoch \<open>\<ge> 0\<close> no curve takes the warmup
  branch, so none divides by \<^verbatim>\<open>warmup_length\<close>: the step curve returns its decayed rate,
  the linear and cosine curves return theirs whenever the span \<^verbatim>\<open>epochs - warmup_length\<close>
  (here \<^verbatim>\<open>epochs\<close>) is not zero, and the exponential curve raises no exception at all (its
  division is numpy's).
\<close>

theorem zero_warmup_no_division:
  assumes "0 \<le> epoch"
  shows "lr_step_policy base_lr steps decay_factor 0 iteration epoch
           = Inr (Finite (step_decay decay_factor epoch base_lr steps))
         \<and> (epochs \<noteq> 0 \<longrightarrow>
              lr_linear_policy base_lr 0 epochs iteration epoch
                = Inr (Finite (base_lr * (1 - real_of_int epoch / real_of_int epochs))))
         \<and> (epochs \<noteq> 0 \<longrightarrow>
              lr_cosine_policy base_lr 0 epochs iteration epoch
                = Inr (Finite (0.5 * (1 + cos (pi * real_of_int epoch / real_of_int epochs)) * base_lr)))
         \<and> lr_exponential_policy base_lr 0 epochs final_multiplier iteration epoch
             = Inr (np_times base_lr (np_pow (epoch_decay 0 epochs final_multiplier) (nat epoch)))"
  using assms
  by (simp add: lr_step_policy_def lr_linear_policy_def lr_cosine_policy_def
        lr_exponential_policy_def)

theorem zero_warmup_no_division_witness:
  "(0::int) \<le> 0 \<and> (2::int) \<noteq> 0
   \<and> lr_step_policy 1 [1] (1 / 10) 0 0 0 = Inr (Finite (step_decay (1 / 10) 0 1 [1]))
   \<and> lr_linear_policy 1 0 2 0 0 = Inr (Finite (1 * (1 - real_of_int 0 / real_of_int 2)))
   \<and> lr_cosine_policy 1 0 2 0 0 = Inr (Finite (0.5 * (1 + cos (pi * real_of_int 0 / real_of_int 2)) * 1))
   \<and> lr_exponential_policy 1 0 2 (1 / 4) 0 0
       = Inr (np_times 1 (np_pow (epoch_decay 0 2 (1 / 4)) (nat 0)))"
  using zero_warmup_no_division [of 0 1 "[1]" "1 / 10" 0 2 "1 / 4"] by simp

section \<open>Properties of the optimizer construction\<close>

text \<open>\<^const>\<open>contains\<close> is the substring test.\<close>

lemma contains_iff: "contains sub s \<longleftrightarrow> (\<exists>pre post. s = pre @ sub @ post)"
proof (induction s)
  case Nil
  show ?case by auto
next
  case (Cons c cs)
  have "take (length sub) (c # cs) = sub \<longleftrightarrow> (\<exists>post. c # cs = sub @ post)"
    by (metis append_eq_conv_conj)
  moreover have "(\<exists>pre post. c # cs = pre @ sub @ post)
      \<longleftrightarrow> (\<exists>post. c # cs = sub @ post) \<or> (\<exists>pre post. cs = pre @ sub @ post)"
  proof
    assume "\<exists>pre post. c # cs = pre @ sub @ post"
    then obtain pre post where e: "c # cs = pre @ sub @ post" by blast
    show "(\<exists>post. c # cs = sub @ post) \<or> (\<exists>pre post. cs = pre @ sub @ post)"
    proof (cases pre)
      case Nil
      with e show ?thesis by auto
    next
      case (Cons a pre')
      with e have "cs = pre' @ sub @ post" by simp
      then show ?thesis by blast
    qed
  next
    assume "(\<exists>post. c # cs = sub @ post) \<or> (\<exists>pre post. cs = pre @ sub @ post)"
    then show "\<exists>pre post. c # cs = pre @ sub @ post"
    proof
      assume "\<exists>post. c # cs = sub @ post"
      then obtain post where "c # cs = [] @ sub @ post" by auto
      then show ?thesis by blast
    next
      assume "\<exists>pre post. cs = pre @ sub @ post"
      then obtain pre post where "cs = pre @ sub @ post" by blast
      then have "c # cs = (c # pre) @ sub @ post" by simp
      then show ?thesis by blast
    qed
  qed
  ultimately show ?case using Cons.IH by simp
qed

text \<open>
  C6: with \<^verbatim>\<open>bn_weight_decay = False\<close>, \<^verbatim>\<open>get_optimizer\<close> builds exactly two groups: the
  first holds the parameters whose name contains \<^verbatim>\<open>"bn"\<close> and has weight decay 0, the
  second holds the remaining parameters and has the configured weight decay. A saved
  state, if one is given, is loaded into the optimizer built from these two groups.
\<close>

theorem bn_weight_decay_split:
  "\<exists>g0 g1.
     get_optimizer load_state_dict parameters fp16 lr0 momentum0 weight_decay0 nesterov0 state False
       = (case state of None \<Rightarrow> [g0, g1] | Some st \<Rightarrow> load_state_dict st [g0, g1])
     \<and> g_params g0 = map snd (filter (\<lambda>(n, v). \<exists>pre post. n = pre @ ''bn'' @ post) parameters)
     \<and> g_weight_decay g0 = 0
     \<and> g_params g1 = map snd (filter (\<lambda>(n, v). \<not> (\<exists>pre post. n = pre @ ''bn'' @ post)) parameters)
     \<and> g_weight_decay g1 = weight_decay0"
proof -
  let ?bn = "\<lambda>(n :: string, v :: param). \<exists>pre post. n = pre @ ''bn'' @ post"
  let ?g0 = "\<lparr>g_params = map snd (filter ?bn parameters), g_lr = Finite lr0,
              g_momentum = momentum0, g_weight_decay = 0, g_nesterov = nesterov0\<rparr>"
  let ?g1 = "\<lparr>g_params = map snd (filter (\<lambda>x. \<not> ?bn x) parameters), g_lr = Finite lr0,
              g_momentum = momentum0, g_weight_decay = weight_decay0, g_nesterov = nesterov0\<rparr>"
  have c: "(\<lambda>(n :: string, v :: param). contains ''bn'' n) = ?bn"
    by (simp add: contains_iff)
  have n: "(\<lambda>(n :: string, v :: param). \<not> contains ''bn'' n) = (\<lambda>x. \<not> ?bn x)"
    by (auto simp add: contains_iff)
  have "get_optimizer load_state_dict parameters fp16 lr0 momentum0 weight_decay0 nesterov0 state False
        = (case state of None \<Rightarrow> [?g0, ?g1] | Some st \<Rightarrow> load_state_dict st [?g0, ?g1])"
    unfolding get_optimizer_def c n by (cases state) (simp_all add: Let_def)
  moreover have "(\<lambda>x. \<not> ?bn x) = (\<lambda>(n, v). \<not> (\<exists>pre post. n = pre @ ''bn'' @ post))"
    by auto
  ultimately show ?thesis
    by (intro exI[of _ ?g0] exI[of _ ?g1]) simp
qed

text \<open>The example of the specification: names \<^verbatim>\<open>"bn1.weight"\<close> and \<^verbatim>\<open>"fc.weight"\<close>.\<close>

lemma bn_weight_decay_split_example:
  "get_optimizer load_state_dict [(''bn1.weight'', p), (''fc.weight'', q)] False lr0 m0 wd n0 None False
   = [\<lparr>g_params = [p], g_lr = Finite lr0, g_momentum = m0, g_weight_decay = 0, g_nesterov = n0\<rparr>,
      \<lparr>g_params = [q], g_lr = Finite lr0, g_momentum = m0, g_weight_decay = wd, g_nesterov = n0\<rparr>]"
  by (simp add: get_optimizer_def)

section \<open>Properties of the train step\<close>

text \<open>
  When every parameter has a gradient, the division goes through all of them and
  leaves every gradient divided.
\<close>

lemma scale_params_has_grads:
  "list_all (\<lambda>p. grad p \<noteq> None) ps \<Longrightarrow>
   scale_params m ps
   = (None, map (\<lambda>p. p\<lparr>grad := map_option (map (\<lambda>x. np_div_int x m)) (grad p)\<rparr>) ps)"
proof (induction ps)
  case Nil
  show ?case by simp
next
  case (Cons p ps)
  from Cons.prems obtain t where t: "grad p = Some t" by auto
  from Cons.prems have "list_all (\<lambda>p. grad p \<noteq> None) ps" by simp
  from Cons.IH[OF this] t show ?case by simp
qed

lemma scale_grads_has_grads:
  "has_grads gs \<Longrightarrow>
   scale_grads m gs
   = (None,
      map (\<lambda>g. g\<lparr>g_params :=
                   map (\<lambda>p. p\<lparr>grad := map_option (map (\<lambda>x. np_div_int x m)) (grad p)\<rparr>)
                     (g_params g)\<rparr>) gs)"
proof (induction gs)
  case Nil
  show ?case by simp
next
  case (Cons g gs)
  from Cons.prems have a: "list_all (\<lambda>p. grad p \<noteq> None) (g_params g)" and b: "has_grads gs"
    by (simp_all add: has_grads_def)
  from Cons.IH[OF b] scale_params_has_grads[OF a, of m] show ?case by simp
qed

lemma scale_grads_divided:
  assumes "has_grads gs"
  shows "\<exists>scaled. scale_grads m gs = (None, scaled) \<and> divided m gs scaled"
proof -
  let ?sc = "map (\<lambda>g. g\<lparr>g_params :=
                   map (\<lambda>p. p\<lparr>grad := map_option (map (\<lambda>x. np_div_int x m)) (grad p)\<rparr>)
                     (g_params g)\<rparr>) gs"
  have "grads ?sc = map (map (map_option (map (\<lambda>x. np_div_int x m)))) (grads gs)"
    by (simp add: grads_def comp_def)
  with assms scale_grads_has_grads[OF assms, of m] show ?thesis
    by (simp add: divided_def)
qed

text \<open>
  C9: the train step returns the loss, reduced across workers when a process group is
  initialised, and zero for both accuracies. It returns whenever the backward pass
  does not fail (it can only under \<^verbatim>\<open>fp16\<close>) and, if the step is to update, every
  parameter has a gradient when the gradients are divided: the one left by the
  backward pass, or under \<^verbatim>\<open>use_amp\<close>, where no backward pass runs, the one it had
  before. And whenever the step returns at all, it returns this triple.
\<close>

theorem train_step_accuracy_zero:
  "((fp16 \<longrightarrow> (\<exists>gs. optimizer_backward env b (opt w) = Inr gs
                    \<and> (do_optimizer_step \<longrightarrow> has_grads gs)))
    \<and> (\<not> fp16 \<and> use_amp \<and> do_optimizer_step \<longrightarrow> has_grads (opt w))
    \<and> (\<not> fp16 \<and> \<not> use_amp \<and> do_optimizer_step \<longrightarrow>
          has_grads (loss_backward env b (opt w)))
    \<longrightarrow> fst (get_train_step env fp16 use_amp batch_size_multiplier b do_optimizer_step w)
        = Inr (if is_initialized env then reduce_tensor env (loss_of env (opt w) b)
               else loss_of env (opt w) b, 0, 0))
   \<and> (\<forall>r. fst (get_train_step env fp16 use_amp batch_size_multiplier b do_optimizer_step w) = Inr r
         \<longrightarrow> r = (if is_initialized env then reduce_tensor env (loss_of env (opt w) b)
                  else loss_of env (opt w) b, 0, 0))"
proof -
  let ?red = "if is_initialized env then reduce_tensor env (loss_of env (opt w) b)
              else loss_of env (opt w) b"
  let ?step = "get_train_step env fp16 use_amp batch_size_multiplier b do_optimizer_step w"
  have ret: "\<forall>r. fst ?step = Inr r \<longrightarrow> r = (?red, 0, 0)"
  proof (cases "backward_pass env fp16 use_amp b (emit [Forward b] w)")
    case (Inl e)
    then show ?thesis by (simp add: get_train_step_def Let_def)
  next
    case (Inr w2)
    obtain e gs where sc: "scale_grads batch_size_multiplier (opt w2) = (e, gs)"
      by (cases "scale_grads batch_size_multiplier (opt w2)")
    show ?thesis
      using Inr sc
      by (cases do_optimizer_step; cases e) (simp_all add: get_train_step_def Let_def)
  qed
  have ok: "fst ?step = Inr (?red, 0, 0)"
    if h1: "fp16 \<longrightarrow> (\<exists>gs. optimizer_backward env b (opt w) = Inr gs
                        \<and> (do_optimizer_step \<longrightarrow> has_grads gs))"
    and h2: "\<not> fp16 \<and> use_amp \<and> do_optimizer_step \<longrightarrow> has_grads (opt w)"
    and h3: "\<not> fp16 \<and> \<not> use_amp \<and> do_optimizer_step \<longrightarrow>
          has_grads (loss_backward env b (opt w))"
  proof -
    have "\<exists>w2. backward_pass env fp16 use_amp b (emit [Forward b] w) = Inr w2
               \<and> (do_optimizer_step \<longrightarrow> has_grads (opt w2))"
      using h1 h2 h3 by (auto simp add: backward_pass_def emit_def Let_def)
    then obtain w2 where bp: "backward_pass env fp16 use_amp b (emit [Forward b] w) = Inr w2"
      and g: "do_optimizer_step \<longrightarrow> has_grads (opt w2)" by blast
    show ?thesis
    proof (cases do_optimizer_step)
      case True
      with g scale_grads_divided[of "opt w2" batch_size_multiplier] obtain scaled where
        "scale_grads batch_size_multiplier (opt w2) = (None, scaled)" by blast
      with True bp show ?thesis by (simp add: get_train_step_def Let_def)
    next
      case False
      with bp show ?thesis by (simp add: get_train_step_def Let_def)
    qed
  qed
  from ret ok show ?thesis by blast
qed

theorem train_step_accuracy_zero_witness:
  "fst (get_train_step example_env False False 4 3 True example_world) = Inr (3, 0, 0)"
proof -
  have h: "has_grads (loss_backward example_env 3 (opt example_world))"
    by (simp add: example_env_def example_world_def has_grads_def)
  have l: "(if is_initialized example_env
            then reduce_tensor example_env (loss_of example_env (opt example_world) 3)
            else loss_of example_env (opt example_world) 3) = 3"
    by (simp add: example_env_def)
  have "fst (get_train_step example_env False False 4 3 True example_world)
        = Inr (if is_initialized example_env
               then reduce_tensor example_env (loss_of example_env (opt example_world) 3)
               else loss_of example_env (opt example_world) 3, 0, 0)"
    using train_step_accuracy_zero[of False example_env 3 example_world True False 4] h
    by blast
  then show ?thesis
    by (simp only: l)
qed

text \<open>
  Under \<^verbatim>\<open>use_amp\<close> (without \<^verbatim>\<open>fp16\<close>) no backward pass runs: on parameters that have no
  gradient yet, a step that is to update raises \<^verbatim>\<open>TypeError\<close>.
\<close>

lemma train_step_use_amp_raises:
  "fst (get_train_step example_env False True 4 3 True example_world) = Inl TypeError"
  by (simp add: get_train_step_def backward_pass_def example_world_def emit_def Let_def)

section \<open>Properties of the epoch loops\<close>

text \<open>
  How the observations distribute over a trace, and what the scheduler, the backward
  pass, the train step and the two batch loops add to the trace when nothing raises.
\<close>

lemma forwarded_append: "forwarded (xs @ ys) = forwarded xs @ forwarded ys"
  by (induction xs rule: forwarded.induct) simp_all

lemma update_indices_append:
  "update_indices n (xs @ ys)
   = update_indices n xs @ update_indices (n + length (forwarded xs)) ys"
  by (induction n xs rule: update_indices.induct) simp_all

lemma forwarded_log: "forwarded (map Log_metric ns) = []"
  by (induction ns) simp_all

lemma forwarded_register: "forwarded (map Register_metric ns) = []"
  by (induction ns) simp_all

lemma update_indices_log: "update_indices n (map Log_metric ns) = []"
  by (induction ns) simp_all

lemma update_indices_register: "update_indices n (map Register_metric ns) = []"
  by (induction ns) simp_all

lemma divided_updates_prev:
  "divided_updates m None es \<Longrightarrow> divided_updates m prev es"
proof (cases es)
  case Nil
  then show ?thesis by simp
next
  case (Cons e es')
  assume "divided_updates m None es"
  with Cons show ?thesis by (cases e) simp_all
qed

lemma divided_updates_append:
  "divided_updates m prev xs \<Longrightarrow> divided_updates m None ys \<Longrightarrow>
   divided_updates m prev (xs @ ys)"
proof (induction xs arbitrary: prev)
  case Nil
  then show ?case by (simp add: divided_updates_prev)
next
  case (Cons e xs)
  then show ?case
    by (cases e) (auto split: list.splits event.splits option.splits)
qed

lemma divided_updates_log: "divided_updates m prev (map Log_metric ns)"
  by (induction ns arbitrary: prev) simp_all

lemma divided_updates_register: "divided_updates m prev (map Register_metric ns)"
  by (induction ns arbitrary: prev) simp_all

lemma alr_ok:
  assumes "lr_fn sched i epoch = Inr v"
  shows "\<exists>w' es. alr sched i epoch w = (None, w') \<and> trace w' = trace w @ es
           \<and> forwarded es = [] \<and> (\<forall>n. update_indices n es = [])
           \<and> (\<forall>m. divided_updates m None es)"
proof (cases "sched_logger sched = None")
  case True
  with assms have "alr sched i epoch w = (None, w\<lparr>opt := set_lr v (opt w)\<rparr>)"
    by (simp add: alr_def)
  then show ?thesis by (intro exI[of _ "w\<lparr>opt := set_lr v (opt w)\<rparr>"] exI[of _ "[]"]) simp
next
  case False
  let ?w1 = "emit [Log_metric ''lr''] w"
  from False assms have "alr sched i epoch w = (None, ?w1\<lparr>opt := set_lr v (opt ?w1)\<rparr>)"
    by (simp add: alr_def Let_def)
  then show ?thesis
    by (intro exI[of _ "?w1\<lparr>opt := set_lr v (opt ?w1)\<rparr>"] exI[of _ "[Log_metric ''lr'']"])
       (simp add: emit_def)
qed

lemma backward_pass_ok:
  assumes "fp16 \<longrightarrow> (\<forall>b gs. \<exists>gs'. optimizer_backward env b gs = Inr gs' \<and> has_grads gs')"
    and "\<not> fp16 \<longrightarrow> \<not> use_amp \<and> (\<forall>b gs. has_grads (loss_backward env b gs))"
  shows "\<exists>w' gs. backward_pass env fp16 use_amp b w = Inr w' \<and> trace w' = trace w @ [Backward gs]
           \<and> opt w' = gs \<and> has_grads gs"
proof (cases fp16)
  case True
  with assms(1) obtain gs' where g: "optimizer_backward env b (opt w) = Inr gs'" "has_grads gs'"
    by blast
  with True have "backward_pass env fp16 use_amp b w = Inr (emit [Backward gs'] (w\<lparr>opt := gs'\<rparr>))"
    by (simp add: backward_pass_def)
  with g(2) show ?thesis
    by (intro exI[of _ "emit [Backward gs'] (w\<lparr>opt := gs'\<rparr>)"] exI[of _ gs'])
       (simp add: emit_def)
next
  case False
  let ?gs = "loss_backward env b (opt w)"
  from False assms(2) have u: "\<not> use_amp" and g: "has_grads ?gs" by simp_all
  from False u have "backward_pass env fp16 use_amp b w = Inr (emit [Backward ?gs] (w\<lparr>opt := ?gs\<rparr>))"
    by (simp add: backward_pass_def Let_def)
  with g show ?thesis
    by (intro exI[of _ "emit [Backward ?gs] (w\<lparr>opt := ?gs\<rparr>)"] exI[of _ ?gs])
       (simp add: emit_def)
qed

lemma step_ok:
  assumes "fp16 \<longrightarrow> (\<forall>b gs. \<exists>gs'. optimizer_backward env b gs = Inr gs' \<and> has_grads gs')"
    and "\<not> fp16 \<longrightarrow> \<not> use_amp \<and> (\<forall>b gs. has_grads (loss_backward env b gs))"
  shows "\<exists>r w' es. get_train_step env fp16 use_amp m b os w = (Inr r, w')
           \<and> trace w' = trace w @ es \<and> forwarded es = [b]
           \<and> (\<forall>n. update_indices n es = (if os then [n] else []))
           \<and> divided_updates m None es"
proof -
  let ?w1 = "emit [Forward b] w"
  from backward_pass_ok[OF assms, of b ?w1] obtain w2 gs where
    bp: "backward_pass env fp16 use_amp b ?w1 = Inr w2" and
    t2: "trace w2 = trace ?w1 @ [Backward gs]" and o2: "opt w2 = gs" and g2: "has_grads gs"
    by blast
  show ?thesis
  proof (cases os)
    case True
    from scale_grads_divided[OF g2, of m] obtain scaled where
      sc: "scale_grads m gs = (None, scaled)" and dv: "divided m gs scaled"
      by blast
    let ?w' = "emit [Cuda_synchronize] (emit [Zero_grad]
                 ((emit [Optimizer_step scaled] (w2\<lparr>opt := optimizer_step env scaled\<rparr>))
                    \<lparr>opt := optimizer_zero_grad env (optimizer_step env scaled)\<rparr>))"
    let ?es = "[Forward b, Backward gs, Optimizer_step scaled, Zero_grad, Cuda_synchronize]"
    from True bp sc o2 have "\<exists>r. get_train_step env fp16 use_amp m b os w = (Inr r, ?w')"
      by (simp add: get_train_step_def Let_def emit_def)
    moreover have "trace ?w' = trace w @ ?es"
      using t2 by (simp add: emit_def)
    moreover have "forwarded ?es = [b]"
      by simp
    moreover have "\<forall>n. update_indices n ?es = [n]"
      by simp
    moreover have "divided_updates m None ?es"
      using dv by simp
    ultimately show ?thesis using True by (metis (full_types))
  next
    case False
    let ?w' = "emit [Cuda_synchronize] w2"
    let ?es = "[Forward b, Backward gs, Cuda_synchronize]"
    from False bp have "\<exists>r. get_train_step env fp16 use_amp m b os w = (Inr r, ?w')"
      by (simp add: get_train_step_def Let_def emit_def)
    moreover have "trace ?w' = trace w @ ?es"
      using t2 by (simp add: emit_def)
    moreover have "forwarded ?es = [b]"
      by simp
    moreover have "\<forall>n. update_indices n ?es = []"
      by simp
    moreover have "divided_updates m None ?es"
      by simp
    ultimately show ?thesis using False by (metis (full_types))
  qed
qed

lemma train_batches_run:
  assumes m: "m \<noteq> 0"
    and sched: "\<forall>i. \<exists>v. lr_fn sched i epoch = Inr v"
    and bk: "fp16 \<longrightarrow> (\<forall>b gs. \<exists>gs'. optimizer_backward env b gs = Inr gs' \<and> has_grads gs')"
    and lb: "\<not> fp16 \<longrightarrow> \<not> use_amp \<and> (\<forall>b gs. has_grads (loss_backward env b gs))"
  shows "\<exists>w' es. train_batches env sched fp16 logger epoch use_amp prof m (enumerate k xs) w = (None, w')
           \<and> trace w' = trace w @ es
           \<and> forwarded es = (if 0 < prof then take (nat prof - k) xs else xs)
           \<and> update_indices k es
               = filter (\<lambda>i. (int i + 1) mod m = 0)
                   [k..<k + length (if 0 < prof then take (nat prof - k) xs else xs)]
           \<and> divided_updates m None es"
proof (induction xs arbitrary: k w)
  case Nil
  show ?case by (intro exI[of _ w] exI[of _ "[]"]) simp
next
  case (Cons x xs)
  let ?P = "\<lambda>i. (int i + 1) mod m = 0"
  let ?proc = "\<lambda>k xs. if 0 < prof then take (nat prof - k) xs else xs"
  from sched obtain v where v: "lr_fn sched k epoch = Inr v" by blast
  from alr_ok[OF v] obtain w1 es1 where
    a: "alr sched k epoch w = (None, w1)" and t1: "trace w1 = trace w @ es1" and
    f1: "forwarded es1 = []" and u1: "\<forall>n. update_indices n es1 = []" and
    d1: "\<forall>m. divided_updates m None es1"
    by blast
  show ?case
  proof (cases "0 < prof \<and> prof \<le> int k")
    case True
    then have "train_batches env sched fp16 logger epoch use_amp prof m (enumerate k (x # xs)) w
               = (None, w1)"
      using a by simp
    moreover from True have "nat prof - k = 0" by linarith
    ultimately show ?thesis
      using t1 f1 u1 d1 True by (intro exI[of _ w1] exI[of _ es1]) simp
  next
    case False
    let ?os = "(int k + 1) mod m = 0"
    from step_ok[OF bk lb] obtain r w2 es2 where
      s: "get_train_step env fp16 use_amp m x ?os w1 = (Inr r, w2)" and
      t2: "trace w2 = trace w1 @ es2" and f2: "forwarded es2 = [x]" and
      u2: "\<forall>n. update_indices n es2 = (if ?os then [n] else [])" and
      d2: "divided_updates m None es2"
      by blast
    obtain loss prec1 prec5 where r: "r = (loss, prec1, prec5)" by (cases r)
    define es3 :: "'a event list"
      where "es3 = (if logger \<noteq> None then map Log_metric train_metrics else [])"
    define w3 where "w3 = (if logger \<noteq> None then emit (map Log_metric train_metrics) w2 else w2)"
    have t3: "trace w3 = trace w2 @ es3" by (simp add: emit_def w3_def es3_def)
    have f3: "forwarded es3 = []" by (simp add: forwarded_log es3_def)
    have u3: "\<forall>n. update_indices n es3 = []" by (simp add: update_indices_log es3_def)
    have d3: "divided_updates m None es3" by (simp add: divided_updates_log es3_def)
    from Cons.IH[of "Suc k" w3] obtain w' es4 where
      tb: "train_batches env sched fp16 logger epoch use_amp prof m (enumerate (Suc k) xs) w3
           = (None, w')" and
      t4: "trace w' = trace w3 @ es4" and
      f4: "forwarded es4 = ?proc (Suc k) xs" and
      u4: "update_indices (Suc k) es4 = filter ?P [Suc k..<Suc k + length (?proc (Suc k) xs)]" and
      d4: "divided_updates m None es4"
      by blast
    let ?es = "es1 @ es2 @ es3 @ es4"
    have run: "train_batches env sched fp16 logger epoch use_amp prof m (enumerate k (x # xs)) w
               = (None, w')"
      using False a s r m tb by (auto simp add: Let_def w3_def)
    have tr: "trace w' = trace w @ ?es"
      using t1 t2 t3 t4 by simp
    have proc: "?proc k (x # xs) = x # ?proc (Suc k) xs"
    proof (cases "0 < prof")
      case True
      with False have "nat prof - k = Suc (nat prof - Suc k)" by linarith
      with True show ?thesis by simp
    next
      case F: False
      then show ?thesis by simp
    qed
    have len: "length (?proc k (x # xs)) = Suc (length (?proc (Suc k) xs))"
      by (simp only: proc length_Cons)
    have upt: "\<And>n. k # [Suc k..<Suc k + n] = [k..<k + Suc n]"
      by (simp add: upt_conv_Cons)
    have fw: "forwarded ?es = ?proc k (x # xs)"
      using f1 f2 f3 f4 proc by (simp add: forwarded_append)
    have "update_indices k ?es = (if ?os then [k] else []) @ update_indices (Suc k) es4"
      using f1 f2 f3 u1 u2 u3 by (simp add: update_indices_append forwarded_append)
    also have "\<dots> = filter ?P (k # [Suc k..<Suc k + length (?proc (Suc k) xs)])"
      using u4 by simp
    also have "k # [Suc k..<Suc k + length (?proc (Suc k) xs)]
               = [k..<k + length (?proc k (x # xs))]"
      by (simp only: len upt)
    finally have up: "update_indices k ?es = filter ?P [k..<k + length (?proc k (x # xs))]" .
    have dv: "divided_updates m None ?es"
      using d1 d2 d3 d4 by (intro divided_updates_append) simp_all
    from run tr fw up dv show ?thesis
      by (intro exI[of _ w'] exI[of _ ?es]) simp
  qed
qed

lemma events_since_append: "trace w' = trace w @ es \<Longrightarrow> events_since w w' = es"
  by (simp add: events_since_def)

lemma train_run:
  assumes m: "m \<noteq> 0"
    and sched: "\<forall>i. \<exists>v. lr_fn sched i epoch = Inr v"
    and bk: "fp16 \<longrightarrow> (\<forall>b gs. \<exists>gs'. optimizer_backward env b gs = Inr gs' \<and> has_grads gs')"
    and lb: "\<not> fp16 \<longrightarrow> \<not> use_amp \<and> (\<forall>b gs. has_grads (loss_backward env b gs))"
    and wrap: "logger \<noteq> None \<longrightarrow>
                 iteration_generator_wrapper env False (enumerate 0 xs) = enumerate 0 xs"
  shows "\<exists>w'. train xs env sched fp16 logger epoch use_amp prof m reg w = (None, w')
           \<and> forwarded (events_since w w') = (if 0 < prof then take (nat prof) xs else xs)
           \<and> update_indices 0 (events_since w w')
               = filter (\<lambda>i. (int i + 1) mod m = 0)
                   [0..<length (if 0 < prof then take (nat prof) xs else xs)]
           \<and> divided_updates m None (events_since w w')"
proof -
  define es0 :: "'a event list" where
    "es0 = (if reg \<and> logger \<noteq> None then map Register_metric train_metrics else [])
           @ [Train_mode, Zero_grad]
           @ (if logger \<noteq> None then [Iteration_generator_wrapper] else [])"
  define w0 where
    "w0 = (let w1 = (if reg \<and> logger \<noteq> None
                     then emit (map Register_metric train_metrics) w else w);
               w2 = emit [Train_mode] w1;
               w3 = emit [Zero_grad] (w2\<lparr>opt := optimizer_zero_grad env (opt w2)\<rparr>)
           in if logger \<noteq> None then emit [Iteration_generator_wrapper] w3 else w3)"
  have t0: "trace w0 = trace w @ es0"
    by (simp add: w0_def es0_def emit_def Let_def)
  have f0: "forwarded es0 = []"
    by (simp add: es0_def forwarded_append forwarded_register)
  have u0: "update_indices 0 es0 = []"
    by (simp add: es0_def update_indices_append update_indices_register forwarded_register)
  have d0: "divided_updates m None es0"
    unfolding es0_def
    by (intro divided_updates_append) (simp_all add: divided_updates_register)
  have tr: "train xs env sched fp16 logger epoch use_amp prof m reg w
            = train_batches env sched fp16 logger epoch use_amp prof m (enumerate 0 xs) w0"
    using wrap by (simp add: train_def w0_def Let_def)
  from train_batches_run[OF m sched bk lb, of logger prof 0 xs w0] obtain w' es where
    r: "train_batches env sched fp16 logger epoch use_amp prof m (enumerate 0 xs) w0 = (None, w')"
    and t: "trace w' = trace w0 @ es"
    and f: "forwarded es = (if 0 < prof then take (nat prof) xs else xs)"
    and u: "update_indices 0 es = filter (\<lambda>i. (int i + 1) mod m = 0)
              [0..<length (if 0 < prof then take (nat prof) xs else xs)]"
    and d: "divided_updates m None es"
    by auto
  have ev: "events_since w w' = es0 @ es"
    using t t0 by (simp add: events_since_append)
  have "forwarded (events_since w w') = (if 0 < prof then take (nat prof) xs else xs)"
    unfolding ev using f f0 by (simp only: forwarded_append append_Nil)
  moreover have "update_indices 0 (events_since w w')
      = filter (\<lambda>i. (int i + 1) mod m = 0)
          [0..<length (if 0 < prof then take (nat prof) xs else xs)]"
    unfolding ev using u u0 f0
    by (simp only: update_indices_append append_Nil list.size add_0_right)
  moreover have "divided_updates m None (events_since w w')"
    unfolding ev using d0 d by (rule divided_updates_append)
  ultimately show ?thesis using r tr by (intro exI[of _ w']) simp
qed

lemma get_val_step_trace:
  "trace (snd (get_val_step env b w)) = trace w @ [Forward b, Cuda_synchronize]"
  by (simp add: get_val_step_def emit_def Let_def split: prod.splits)

lemma validate_batches_run:
  "\<exists>t' w' es. validate_batches env logger prof (enumerate k xs) t w = (t', w')
     \<and> trace w' = trace w @ es
     \<and> forwarded es = (if 0 < prof then take (Suc (nat prof) - k) xs else xs)"
proof (induction xs arbitrary: k t w)
  case Nil
  show ?case by (intro exI[of _ t] exI[of _ w] exI[of _ "[]"]) simp
next
  case (Cons x xs)
  let ?proc = "\<lambda>k xs. if 0 < prof then take (Suc (nat prof) - k) xs else xs"
  show ?case
  proof (cases "0 < prof \<and> prof < int k")
    case True
    then have "validate_batches env logger prof (enumerate k (x # xs)) t w = (t, w)"
      by (simp add: Let_def)
    moreover from True have "Suc (nat prof) - k = 0" by linarith
    ultimately show ?thesis
      using True by (intro exI[of _ t] exI[of _ w] exI[of _ "[]"]) simp
  next
    case False
    obtain loss prec1 prec5 w1 where s: "get_val_step env x w = ((loss, prec1, prec5), w1)"
      by (metis prod.exhaust)
    have t1: "trace w1 = trace w @ [Forward x, Cuda_synchronize]"
      using get_val_step_trace[of env x w] s by simp
    define es2 :: "'a event list"
      where "es2 = (if logger \<noteq> None then map Log_metric val_metrics else [])"
    define w2 where "w2 = (if logger \<noteq> None then emit (map Log_metric val_metrics) w1 else w1)"
    have t2: "trace w2 = trace w1 @ es2" by (simp add: emit_def w2_def es2_def)
    have f2: "forwarded es2 = []" by (simp add: forwarded_log es2_def)
    from Cons.IH[of "Suc k" "t @ [(prec1, input_size env x)]" w2] obtain t' w' es3 where
      vb: "validate_batches env logger prof (enumerate (Suc k) xs)
             (t @ [(prec1, input_size env x)]) w2 = (t', w')" and
      t3: "trace w' = trace w2 @ es3" and
      f3: "forwarded es3 = ?proc (Suc k) xs"
      by blast
    let ?es = "[Forward x, Cuda_synchronize] @ es2 @ es3"
    have run: "validate_batches env logger prof (enumerate k (x # xs)) t w = (t', w')"
      using False s vb by (auto simp add: Let_def w2_def)
    have tr: "trace w' = trace w @ ?es"
      using t1 t2 t3 by simp
    have proc: "?proc k (x # xs) = x # ?proc (Suc k) xs"
    proof (cases "0 < prof")
      case True
      with False have "Suc (nat prof) - k = Suc (Suc (nat prof) - Suc k)" by linarith
      with True show ?thesis by simp
    next
      case F: False
      then show ?thesis by simp
    qed
    have fw: "forwarded ?es = ?proc k (x # xs)"
      using f2 f3 proc by (simp add: forwarded_append)
    from run tr fw show ?thesis
      by (intro exI[of _ t'] exI[of _ w'] exI[of _ ?es]) simp
  qed
qed

lemma validate_run:
  assumes wrap: "logger \<noteq> None \<longrightarrow>
                   iteration_generator_wrapper env True (enumerate 0 xs) = enumerate 0 xs"
  shows "forwarded (events_since w (snd (validate xs env fp16 logger epoch prof reg w)))
         = (if 0 < prof then take (Suc (nat prof)) xs else xs)"
proof -
  define es0 :: "'a event list" where
    "es0 = (if reg \<and> logger \<noteq> None then map Register_metric val_metrics else [])
           @ [Eval_mode]
           @ (if logger \<noteq> None then [Iteration_generator_wrapper] else [])"
  define w0 where
    "w0 = (let w1 = (if reg \<and> logger \<noteq> None
                     then emit (map Register_metric val_metrics) w else w);
               w2 = emit [Eval_mode] w1
           in if logger \<noteq> None then emit [Iteration_generator_wrapper] w2 else w2)"
  have t0: "trace w0 = trace w @ es0"
    by (simp add: w0_def es0_def emit_def Let_def)
  have f0: "forwarded es0 = []"
    by (simp add: es0_def forwarded_append forwarded_register)
  from validate_batches_run[of env logger prof 0 xs "[]" w0] obtain t' w' es where
    r: "validate_batches env logger prof (enumerate 0 xs) [] w0 = (t', w')"
    and t: "trace w' = trace w0 @ es"
    and f: "forwarded es = (if 0 < prof then take (Suc (nat prof)) xs else xs)"
    by auto
  have "validate xs env fp16 logger epoch prof reg w
        = (case validate_batches env logger prof (enumerate 0 xs) [] w0 of
             (top1, w3) \<Rightarrow> (average_meter env top1, w3))"
    using wrap by (auto simp add: validate_def w0_def Let_def)
  then have v: "snd (validate xs env fp16 logger epoch prof reg w) = w'"
    using r by simp
  have ev: "events_since w w' = es0 @ es"
    using t t0 by (simp add: events_since_append)
  show ?thesis
    unfolding v ev using f f0 by (simp only: forwarded_append append_Nil)
qed


text \<open>The example environment and scheduler, evaluated.\<close>

lemma ex_env_simps:
  "loss_of example_env gs b = real b"
  "accuracy example_env gs b = (real b, 100)"
  "input_size example_env b = 1"
  "loss_backward example_env b gs
   = map (\<lambda>g. g\<lparr>g_params := map (\<lambda>p. p\<lparr>grad := Some [Finite 8]\<rparr>) (g_params g)\<rparr>) gs"
  "optimizer_backward example_env b gs = Inl AttributeError"
  "optimizer_step example_env gs = gs"
  "optimizer_zero_grad example_env gs = gs"
  "is_initialized example_env = False"
  "get_rank example_env = 0"
  "reduce_tensor example_env x = x"
  "average_meter example_env rs = (if rs = [] then 0 else sum_list (map fst rs) / real (length rs))"
  "iteration_generator_wrapper example_env v xs = xs"
  "epoch_generator_wrapper example_env ys = ys"
  by (simp_all add: example_env_def)

lemma ex_sched:
  "0 \<le> epoch \<Longrightarrow>
   alr example_scheduler i epoch w
   = (None, w\<lparr>opt := set_lr (Finite (step_decay (1 / 10) epoch 1 [30, 60])) (opt w)\<rparr>)"
  by (simp add: alr_def example_scheduler_def lr_step_policy_def)

lemma example_backward_has_grads: "has_grads (loss_backward example_env b gs)"
  by (simp add: example_env_def has_grads_def list_all_iff)

lemma example_hypotheses:
  "\<forall>i. \<exists>v. lr_fn example_scheduler i 0 = Inr v"
  "False \<longrightarrow> (\<forall>b gs. \<exists>gs'. optimizer_backward example_env b gs = Inr gs' \<and> has_grads gs')"
  "\<not> False \<longrightarrow> \<not> False \<and> (\<forall>b gs. has_grads (loss_backward example_env b gs))"
  "logger \<noteq> None \<longrightarrow> iteration_generator_wrapper example_env v (enumerate 0 xs) = enumerate 0 xs"
proof -
  show "\<forall>i. \<exists>v. lr_fn example_scheduler i 0 = Inr v"
    by (simp add: example_scheduler_def lr_step_policy_def)
  show "False \<longrightarrow> (\<forall>b gs. \<exists>gs'. optimizer_backward example_env b gs = Inr gs' \<and> has_grads gs')"
    by simp
  show "\<not> False \<longrightarrow> \<not> False \<and> (\<forall>b gs. has_grads (loss_backward example_env b gs))"
    using example_backward_has_grads by simp
  show "logger \<noteq> None \<longrightarrow> iteration_generator_wrapper example_env v (enumerate 0 xs) = enumerate 0 xs"
    by (simp add: ex_env_simps)
qed


text \<open>
  A loop that handed the gradients to the optimizer undivided would not pass: the run
  above does not have its updates divided by 1.
\<close>

lemma undivided_updates_rejected:
  "\<not> divided_updates 1 None
        (events_since example_world
           (snd (train [0, 1, 2, 3] example_env example_scheduler False None 0 False (- 1) 4 True
                   example_world)))"
  by (simp add: train_def get_train_step_def backward_pass_def ex_env_simps ex_sched Let_def
        enumerate_eq_zip upt_rec events_since_def emit_def example_world_def grads_def
        set_lr_def divided_def has_grads_def)

text \<open>
  C7: with a positive profiling limit \<^verbatim>\<open>prof\<close> (and a run in which nothing raises), the
  train loop hands the batches with index \<open>0..prof - 1\<close> to the model and the validate
  loop those with index \<open>0..prof\<close>, as far as the loaders have them.
\<close>

theorem profiling_limit:
  assumes "0 < prof"
    and "m \<noteq> 0"
    and "\<forall>i. \<exists>v. lr_fn sched i epoch = Inr v"
    and "fp16 \<longrightarrow> (\<forall>b gs. \<exists>gs'. optimizer_backward env b gs = Inr gs' \<and> has_grads gs')"
    and "\<not> fp16 \<longrightarrow> \<not> use_amp \<and> (\<forall>b gs. has_grads (loss_backward env b gs))"
    and "logger \<noteq> None \<longrightarrow>
           iteration_generator_wrapper env False (enumerate 0 train_loader) = enumerate 0 train_loader"
    and "logger \<noteq> None \<longrightarrow>
           iteration_generator_wrapper env True (enumerate 0 val_loader) = enumerate 0 val_loader"
  shows "fst (train train_loader env sched fp16 logger epoch use_amp prof m reg w) = None
         \<and> forwarded
             (events_since w (snd (train train_loader env sched fp16 logger epoch use_amp prof m reg w)))
           = take (nat prof) train_loader
         \<and> forwarded
             (events_since w (snd (validate val_loader env fp16 logger epoch prof reg w)))
           = take (nat prof + 1) val_loader"
proof -
  from train_run[OF assms(2-6), of prof reg w] obtain w' where
    r: "train train_loader env sched fp16 logger epoch use_amp prof m reg w = (None, w')" and
    f: "forwarded (events_since w w') = (if 0 < prof then take (nat prof) train_loader else train_loader)"
    by blast
  from validate_run[OF assms(7), of w fp16 epoch prof reg] assms(1) r f
  show ?thesis by simp
qed

text \<open>With \<^verbatim>\<open>prof = 5\<close>: five batches in the train loop, six in the validate loop.\<close>

theorem profiling_limit_witness:
  "fst (train [10, 11, 12, 13, 14, 15, 16, 17] example_env example_scheduler False (Some Logger) 0
          False 5 1 True example_world) = None
   \<and> forwarded
        (events_since example_world
           (snd (train [10, 11, 12, 13, 14, 15, 16, 17] example_env example_scheduler False
                   (Some Logger) 0 False 5 1 True example_world)))
      = [10, 11, 12, 13, 14]
   \<and> forwarded
        (events_since example_world
           (snd (validate [10, 11, 12, 13, 14, 15, 16, 17] example_env False (Some Logger) 0 5
                   True example_world)))
      = [10, 11, 12, 13, 14, 15]"
proof -
  have h1: "(0::int) < 5" by simp
  have h2: "(1::int) \<noteq> 0" by simp
  have n: "nat 5 = Suc (Suc (Suc (Suc (Suc 0))))" by simp
  from profiling_limit[OF h1 h2 example_hypotheses(1-3)
      example_hypotheses(4)[of "Some Logger" False "[10, 11, 12, 13, 14, 15, 16, 17]"]
      example_hypotheses(4)[of "Some Logger" True "[10, 11, 12, 13, 14, 15, 16, 17]"],
      of True example_world]
  show ?thesis by (simp add: n)
qed

text \<open>
  C10: with a profiling limit \<^verbatim>\<open>prof\<close> that is not positive (\<open>0\<close> and the default
  \<open>- 1\<close> among them), both loops hand every batch of their loader to the model, in a
  run in which nothing raises.
\<close>

theorem no_profiling_limit:
  assumes "prof \<le> 0"
    and "m \<noteq> 0"
    and "\<forall>i. \<exists>v. lr_fn sched i epoch = Inr v"
    and "fp16 \<longrightarrow> (\<forall>b gs. \<exists>gs'. optimizer_backward env b gs = Inr gs' \<and> has_grads gs')"
    and "\<not> fp16 \<longrightarrow> \<not> use_amp \<and> (\<forall>b gs. has_grads (loss_backward env b gs))"
    and "logger \<noteq> None \<longrightarrow>
           iteration_generator_wrapper env False (enumerate 0 train_loader) = enumerate 0 train_loader"
    and "logger \<noteq> None \<longrightarrow>
           iteration_generator_wrapper env True (enumerate 0 val_loader) = enumerate 0 val_loader"
  shows "fst (train train_loader env sched fp16 logger epoch use_amp prof m reg w) = None
         \<and> forwarded
             (events_since w (snd (train train_loader env sched fp16 logger epoch use_amp prof m reg w)))
           = train_loader
         \<and> forwarded
             (events_since w (snd (validate val_loader env fp16 logger epoch prof reg w)))
           = val_loader"
proof -
  from train_run[OF assms(2-6), of prof reg w] obtain w' where
    r: "train train_loader env sched fp16 logger epoch use_amp prof m reg w = (None, w')" and
    f: "forwarded (events_since w w') = (if 0 < prof then take (nat prof) train_loader else train_loader)"
    by blast
  from validate_run[OF assms(7), of w fp16 epoch prof reg] assms(1) r f
  show ?thesis by simp
qed

theorem no_profiling_limit_witness:
  "fst (train [10, 11, 12] example_env example_scheduler False None 0 False 0 1 True example_world)
     = None
   \<and> forwarded
        (events_since example_world
           (snd (train [10, 11, 12] example_env example_scheduler False None 0 False 0 1 True
                   example_world)))
      = [10, 11, 12]
   \<and> forwarded
        (events_since example_world
           (snd (validate [10, 11, 12] example_env False None 0 0 True example_world)))
      = [10, 11, 12]"
proof -
  have h1: "(0::int) \<le> 0" by simp
  have h2: "(1::int) \<noteq> 0" by simp
  from no_profiling_limit[OF h1 h2 example_hypotheses(1-3)
      example_hypotheses(4)[of None False "[10, 11, 12]"]
      example_hypotheses(4)[of None True "[10, 11, 12]"],
      of True example_world]
  show ?thesis by simp
qed

text \<open>
  Under \<^verbatim>\<open>use_amp\<close> the train loop does not get that far: the first step that is to
  update raises \<^verbatim>\<open>TypeError\<close>.
\<close>

lemma train_use_amp_raises:
  "fst (train [10, 11, 12] example_env example_scheduler False None 0 True (- 1) 1 True
          example_world) = Some TypeError"
  by (simp add: train_def get_train_step_def backward_pass_def ex_env_simps ex_sched Let_def
        enumerate_eq_zip upt_rec emit_def example_world_def set_lr_def)

section \<open>Properties of the epoch orchestrator\<close>

text \<open>
  The train and validate phases save no checkpoint, whatever their outcome: each
  function only extends the trace, by calls other than \<^verbatim>\<open>save_checkpoint\<close>.
\<close>

lemma saved_append: "saved (xs @ ys) = saved xs @ saved ys"
  by (induction xs rule: saved.induct) simp_all

lemma saved_log: "saved (map Log_metric ns) = []"
  by (induction ns) simp_all

lemma saved_register: "saved (map Register_metric ns) = []"
  by (induction ns) simp_all

lemma quietI: "trace w' = trace w @ es \<Longrightarrow> saved es = [] \<Longrightarrow> quiet w w'"
  by (simp add: quiet_def events_since_def)

lemma quietD: "quiet w w' \<Longrightarrow> \<exists>es. trace w' = trace w @ es \<and> saved es = []"
  unfolding quiet_def events_since_def
  by (metis append_take_drop_id)

lemma quiet_refl: "quiet w w"
  by (simp add: quiet_def events_since_def)

lemma quiet_trans: "quiet w w1 \<Longrightarrow> quiet w1 w2 \<Longrightarrow> quiet w w2"
proof -
  assume "quiet w w1" and "quiet w1 w2"
  then obtain es1 es2 where "trace w1 = trace w @ es1" "saved es1 = []"
    "trace w2 = trace w1 @ es2" "saved es2 = []"
    by (blast dest: quietD)
  then show "quiet w w2"
    by (intro quietI[of _ _ "es1 @ es2"]) (simp_all add: saved_append)
qed

lemma quiet_emit: "saved es = [] \<Longrightarrow> quiet w (emit es w)"
  by (rule quietI[of _ _ es]) (simp_all add: emit_def)

lemma quiet_opt: "quiet w (w\<lparr>opt := gs\<rparr>)"
  by (rule quietI[of _ _ "[]"]) simp_all

lemma alr_quiet: "quiet w (snd (alr sched i epoch w))"
  by (cases "lr_fn sched i epoch")
     (auto simp add: alr_def Let_def emit_def intro: quiet_refl quietI[of _ _ "[Log_metric ''lr'']"]
        quietI[of _ _ "[]"])

lemma backward_pass_quiet: "backward_pass env fp16 use_amp b w = Inr w' \<Longrightarrow> quiet w w'"
proof -
  assume a: "backward_pass env fp16 use_amp b w = Inr w'"
  then have "w' = w \<or> (\<exists>gs. w' = emit [Backward gs] (w\<lparr>opt := gs\<rparr>))"
    by (auto simp add: backward_pass_def Let_def split: if_splits sum.splits)
  then show "quiet w w'"
  proof
    assume "w' = w"
    then show ?thesis by (simp add: quiet_refl)
  next
    assume "\<exists>gs. w' = emit [Backward gs] (w\<lparr>opt := gs\<rparr>)"
    then obtain gs where "w' = emit [Backward gs] (w\<lparr>opt := gs\<rparr>)" by blast
    then show ?thesis
      by (intro quietI[of _ _ "[Backward gs]"]) (simp_all add: emit_def)
  qed
qed

lemma get_train_step_quiet: "quiet w (snd (get_train_step env fp16 use_amp m b os w))"
proof (cases "backward_pass env fp16 use_amp b (emit [Forward b] w)")
  case (Inl e)
  then show ?thesis
    by (simp add: get_train_step_def Let_def quiet_emit)
next
  case (Inr w2)
  have q1: "quiet w (emit [Forward b] w)" by (simp add: quiet_emit)
  from backward_pass_quiet[OF Inr] have q2: "quiet (emit [Forward b] w) w2" .
  obtain e gs where sc: "scale_grads m (opt w2) = (e, gs)"
    by (cases "scale_grads m (opt w2)")
  have q3: "quiet w2 (snd (get_train_step env fp16 use_amp m b os w))"
  proof (cases "os \<and> e = None")
    case True
    with Inr sc show ?thesis
      by (intro quietI[of _ _ "[Optimizer_step gs, Zero_grad, Cuda_synchronize]"])
         (simp_all add: get_train_step_def Let_def emit_def)
  next
    case False
    show ?thesis
    proof (cases os)
      case True
      with False obtain err where "e = Some err" by auto
      with True Inr sc show ?thesis
        by (simp add: get_train_step_def Let_def quiet_opt)
    next
      case F: False
      with Inr show ?thesis
        by (simp add: get_train_step_def Let_def quiet_emit)
    qed
  qed
  from q1 q2 q3 show ?thesis by (blast intro: quiet_trans)
qed

lemma train_batches_quiet:
  "quiet w (snd (train_batches env sched fp16 logger epoch use_amp prof m xs w))"
proof (induction xs arbitrary: w)
  case Nil
  show ?case by (simp add: quiet_refl)
next
  case (Cons ib xs)
  obtain i b where ib: "ib = (i, b)" by (cases ib)
  obtain e1 w1 where a: "alr sched i epoch w = (e1, w1)" by (cases "alr sched i epoch w")
  have q1: "quiet w w1" using alr_quiet[of w sched i epoch] a by simp
  show ?case
  proof (cases e1)
    case (Some e)
    then show ?thesis using ib a q1 by simp
  next
    case None
    show ?thesis
    proof (cases "(0 < prof \<and> prof \<le> int i) \<or> m = 0")
      case True
      then show ?thesis using ib a None q1 by auto
    next
      case False
      let ?os = "(int i + 1) mod m = 0"
      obtain r2 w2 where s: "get_train_step env fp16 use_amp m b ?os w1 = (r2, w2)"
        by (cases "get_train_step env fp16 use_amp m b ?os w1")
      have q2: "quiet w1 w2" using get_train_step_quiet[of w1 env fp16 use_amp m b ?os] s by simp
      show ?thesis
      proof (cases r2)
        case (Inl e)
        then show ?thesis using ib a None False s q1 q2 by (auto intro: quiet_trans)
      next
        case (Inr t)
        obtain loss p1 p5 where t: "t = (loss, p1, p5)" by (cases t)
        define w3 where "w3 = (if logger \<noteq> None then emit (map Log_metric train_metrics) w2 else w2)"
        have q3: "quiet w2 w3"
          by (simp add: w3_def quiet_refl quiet_emit saved_log)
        have run: "train_batches env sched fp16 logger epoch use_amp prof m (ib # xs) w
                   = train_batches env sched fp16 logger epoch use_amp prof m xs w3"
          using ib a None False s Inr t by (auto simp add: Let_def w3_def)
        from q1 q2 q3 Cons.IH[of w3] show ?thesis
          unfolding run by (blast intro: quiet_trans)
      qed
    qed
  qed
qed

lemma train_quiet:
  "quiet w (snd (train xs env sched fp16 logger epoch use_amp prof m reg w))"
proof -
  define w0 where
    "w0 = (let w1 = (if reg \<and> logger \<noteq> None
                     then emit (map Register_metric train_metrics) w else w);
               w2 = emit [Train_mode] w1;
               w3 = emit [Zero_grad] (w2\<lparr>opt := optimizer_zero_grad env (opt w2)\<rparr>)
           in if logger \<noteq> None then emit [Iteration_generator_wrapper] w3 else w3)"
  have q0: "quiet w w0"
    by (rule quietI[of _ _ "(if reg \<and> logger \<noteq> None then map Register_metric train_metrics else [])
           @ [Train_mode, Zero_grad]
           @ (if logger \<noteq> None then [Iteration_generator_wrapper] else [])"])
       (simp_all add: w0_def emit_def Let_def saved_append saved_register)
  define ys where
    "ys = (if logger \<noteq> None then iteration_generator_wrapper env False (enumerate 0 xs)
           else enumerate 0 xs)"
  have "train xs env sched fp16 logger epoch use_amp prof m reg w
          = train_batches env sched fp16 logger epoch use_amp prof m ys w0"
    by (cases "logger = None") (simp_all add: train_def w0_def ys_def Let_def)
  with q0 train_batches_quiet[of w0 env sched fp16 logger epoch use_amp prof m ys]
  show ?thesis by (auto intro: quiet_trans)
qed

lemma get_val_step_quiet: "quiet w (snd (get_val_step env b w))"
  by (rule quietI[of _ _ "[Forward b, Cuda_synchronize]"])
     (simp_all add: get_val_step_def emit_def Let_def split: prod.splits)

lemma validate_batches_quiet:
  "quiet w (snd (validate_batches env logger prof xs t w))"
proof (induction xs arbitrary: t w)
  case Nil
  show ?case by (simp add: quiet_refl)
next
  case (Cons ib xs)
  obtain i b where ib: "ib = (i, b)" by (cases ib)
  show ?case
  proof (cases "0 < prof \<and> prof < int i")
    case True
    then show ?thesis using ib by (simp add: Let_def quiet_refl)
  next
    case False
    obtain loss prec1 prec5 w1 where s: "get_val_step env b w = ((loss, prec1, prec5), w1)"
      by (metis prod.exhaust)
    have q1: "quiet w w1" using get_val_step_quiet[of w env b] s by simp
    define w2 where "w2 = (if logger \<noteq> None then emit (map Log_metric val_metrics) w1 else w1)"
    have q2: "quiet w1 w2"
      by (simp add: w2_def quiet_refl quiet_emit saved_log)
    have run: "validate_batches env logger prof (ib # xs) t w
               = validate_batches env logger prof xs (t @ [(prec1, input_size env b)]) w2"
      using ib False s by (auto simp add: Let_def w2_def)
    from q1 q2 Cons.IH[of w2 "t @ [(prec1, input_size env b)]"] show ?thesis
      unfolding run by (blast intro: quiet_trans)
  qed
qed

lemma validate_quiet:
  "quiet w (snd (validate xs env fp16 logger epoch prof reg w))"
proof -
  define w0 where
    "w0 = (let w1 = (if reg \<and> logger \<noteq> None
                     then emit (map Register_metric val_metrics) w else w);
               w2 = emit [Eval_mode] w1
           in if logger \<noteq> None then emit [Iteration_generator_wrapper] w2 else w2)"
  have q0: "quiet w w0"
    by (rule quietI[of _ _ "(if reg \<and> logger \<noteq> None then map Register_metric val_metrics else [])
           @ [Eval_mode]
           @ (if logger \<noteq> None then [Iteration_generator_wrapper] else [])"])
       (simp_all add: w0_def emit_def Let_def saved_append saved_register)
  define ys where
    "ys = (if logger \<noteq> None then iteration_generator_wrapper env True (enumerate 0 xs)
           else enumerate 0 xs)"
  have "snd (validate xs env fp16 logger epoch prof reg w)
          = snd (validate_batches env logger prof ys [] w0)"
    by (cases "logger = None")
       (simp_all add: validate_def w0_def ys_def Let_def split: prod.splits)
  with q0 validate_batches_quiet[of w0 env logger prof ys "[]"]
  show ?thesis by (auto intro: quiet_trans)
qed

text \<open>
  The loop body saves at most one checkpoint, built from the accuracy of this epoch and
  the best value before it; the checkpoints of a whole run form a chain.
\<close>

lemma save_phase_cases:
  assumes "save_phase env sb skip_training save_checkpoints dir epoch p b w = (b', w')"
  shows "(w' = w \<and> b' = b)
         \<or> (\<not> skip_training \<and> b' = max p b
            \<and> w' = emit [Save_checkpoint
                          \<lparr>ck_epoch = epoch + 1, ck_best_prec1 = max p b, ck_optimizer = opt w\<rparr>
                          (b < p) dir
                          (if sb epoch then Some (''checkpoint-'' @ str_int (epoch + 1) @ ''.pth.tar'')
                           else None)] w)"
  using assms by (auto simp add: save_phase_def Let_def split: if_splits)

lemma end_phase_quiet: "quiet w (snd (end_phase env logger w))"
  by (cases logger) (auto simp add: end_phase_def quiet_refl quiet_emit)

lemma train_loop_epoch_saved:
  assumes r: "train_loop_epoch env sched trl vll fp16 logger sb use_amp m start_epoch prof
                skip_training skip_validation save_checkpoints dir epoch (p, b) w
              = (err, (p', b'), w')"
  shows "\<exists>es. trace w' = trace w @ es
           \<and> (saved es = [] \<and> b' = b
              \<or> saved es = [(b', b < p')] \<and> b' = max p' b \<and> \<not> skip_training
                \<and> p' = (if skip_validation then p
                         else fst (validate vll env fp16 logger epoch prof (epoch = start_epoch)
                                (snd (train trl env sched fp16 logger epoch use_amp prof m
                                        (epoch = start_epoch) w)))))"
proof -
  define trained where
    "trained = (if \<not> skip_training
                then train trl env sched fp16 logger epoch use_amp prof m (epoch = start_epoch) w
                else (None, w))"
  obtain e1 w1 where t: "trained = (e1, w1)" by (cases trained)
  have q1: "quiet w w1"
  proof (cases skip_training)
    case True
    with t show ?thesis by (simp add: trained_def quiet_refl)
  next
    case False
    with t train_quiet[of w trl env sched fp16 logger epoch use_amp prof m "epoch = start_epoch"]
    show ?thesis by (simp add: trained_def)
  qed
  show ?thesis
  proof (cases e1)
    case (Some e)
    with r t have "w' = w1" "b' = b"
      by (simp_all add: train_loop_epoch_def Let_def trained_def[symmetric])
    with q1 show ?thesis by (blast dest: quietD)
  next
    case None
    define validated where
      "validated = (if \<not> skip_validation
                    then validate vll env fp16 logger epoch prof (epoch = start_epoch) w1
                    else (p, w1))"
    obtain pv w2 where v: "validated = (pv, w2)" by (cases validated)
    have q2: "quiet w1 w2"
    proof (cases skip_validation)
      case True
      with v show ?thesis by (simp add: validated_def quiet_refl)
    next
      case False
      with v validate_quiet[of w1 vll env fp16 logger epoch prof "epoch = start_epoch"]
      show ?thesis by (simp add: validated_def)
    qed
    obtain bs w3 where s: "save_phase env sb skip_training save_checkpoints dir epoch pv b w2
                           = (bs, w3)"
      by (cases "save_phase env sb skip_training save_checkpoints dir epoch pv b w2")
    obtain e4 w4 where e: "end_phase env logger w3 = (e4, w4)"
      by (cases "end_phase env logger w3")
    have q4: "quiet w3 w4" using end_phase_quiet[of w3 env logger] e by simp
    from r t None v s e have res: "p' = pv" "b' = bs" "w' = w4"
      by (simp_all add: train_loop_epoch_def Let_def trained_def[symmetric]
            validated_def[symmetric])
    from q1 q2 have q12: "quiet w w2" by (rule quiet_trans)
    from save_phase_cases[OF s] show ?thesis
    proof
      assume "w3 = w2 \<and> bs = b"
      with q12 q4 res have "quiet w w'" "b' = b" by (auto intro: quiet_trans)
      then show ?thesis by (blast dest: quietD)
    next
      assume a0: "\<not> skip_training \<and> bs = max pv b
                 \<and> w3 = emit [Save_checkpoint
                          \<lparr>ck_epoch = epoch + 1, ck_best_prec1 = max pv b, ck_optimizer = opt w2\<rparr>
                          (b < pv) dir
                          (if sb epoch then Some (''checkpoint-'' @ str_int (epoch + 1) @ ''.pth.tar'')
                           else None)] w2"
      then have a: "\<not> skip_training \<and> bs = max pv b" by simp
      from a0 obtain ck d bk where w3: "w3 = emit [Save_checkpoint ck (b < pv) d bk] w2"
        and ck: "ck_best_prec1 ck = max pv b" by (metis checkpoint.select_convs(2))
      from q12 obtain es12 where t12: "trace w2 = trace w @ es12" and s12: "saved es12 = []"
        by (blast dest: quietD)
      from q4 obtain es4 where t4: "trace w4 = trace w3 @ es4" and s4: "saved es4 = []"
        by (blast dest: quietD)
      let ?es = "es12 @ [Save_checkpoint ck (b < pv) d bk] @ es4"
      have tr: "trace w' = trace w @ ?es"
        using res t12 t4 w3 by (simp add: emit_def)
      have sv: "saved ?es = [(b', b < p')]"
        using s12 s4 ck a res by (simp add: saved_append)
      have pv: "pv = (if skip_validation then p
                      else fst (validate vll env fp16 logger epoch prof (epoch = start_epoch)
                             (snd (train trl env sched fp16 logger epoch use_amp prof m
                                     (epoch = start_epoch) w))))"
        using a v t by (auto simp add: validated_def trained_def split: if_splits)
      from tr sv a res pv show ?thesis
        by (intro exI[of _ ?es]) simp
    qed
  qed
qed

lemma train_loop_epochs_chain:
  assumes "train_loop_epochs env sched trl vll fp16 logger sb use_amp m start_epoch prof
             skip_training skip_validation save_checkpoints dir epochs (p, b) w
           = (err, pb', w')"
  shows "\<exists>es. trace w' = trace w @ es \<and> best_chain b (saved es)"
  using assms
proof (induction epochs arbitrary: p b w)
  case Nil
  then show ?case by (intro exI[of _ "[]"]) simp
next
  case (Cons epoch rest)
  obtain e1 p1 b1 w1 where body:
    "train_loop_epoch env sched trl vll fp16 logger sb use_amp m start_epoch prof
       skip_training skip_validation save_checkpoints dir epoch (p, b) w = (e1, (p1, b1), w1)"
    by (metis prod.exhaust)
  from train_loop_epoch_saved[OF body] obtain es1 where
    t1: "trace w1 = trace w @ es1" and
    c1: "saved es1 = [] \<and> b1 = b \<or> saved es1 = [(b1, b < p1)] \<and> b1 = max p1 b"
    by blast
  have step: "\<And>tail. best_chain b1 tail \<Longrightarrow> best_chain b (saved es1 @ tail)"
    using c1 by auto
  show ?case
  proof (cases e1)
    case (Some e)
    with Cons.prems body have "w' = w1" by simp
    with t1 step[of "[]"] show ?thesis by (intro exI[of _ es1]) simp
  next
    case None
    with Cons.prems body have
      "train_loop_epochs env sched trl vll fp16 logger sb use_amp m start_epoch prof
         skip_training skip_validation save_checkpoints dir rest (p1, b1) w1 = (err, pb', w')"
      by simp
    from Cons.IH[OF this] obtain es2 where
      t2: "trace w' = trace w1 @ es2" and c2: "best_chain b1 (saved es2)"
      by blast
    from t1 t2 step[OF c2] show ?thesis
      by (intro exI[of _ "es1 @ es2"]) (simp add: saved_append)
  qed
qed

lemma train_loop_chain:
  "best_chain best_prec1
     (saved (events_since w
        (snd (train_loop env sched trl vll epochs fp16 logger sb use_amp m best_prec1 start_epoch
                prof skip_training skip_validation save_checkpoints dir w))))"
proof -
  define w0 where "w0 = (if logger \<noteq> None then emit [Epoch_generator_wrapper] w else w)"
  define it where "it = (if logger \<noteq> None
                         then epoch_generator_wrapper env [start_epoch..epochs - 1]
                         else [start_epoch..epochs - 1])"
  obtain err pb' w2 where l:
    "train_loop_epochs env sched trl vll fp16 logger sb use_amp m start_epoch prof
       skip_training skip_validation save_checkpoints dir it (- 1, best_prec1) w0 = (err, pb', w2)"
    by (metis prod.exhaust)
  from train_loop_epochs_chain[OF l] obtain es where
    t: "trace w2 = trace w0 @ es" and c: "best_chain best_prec1 (saved es)"
    by blast
  define es0 :: "'a event list" where
    "es0 = (if logger \<noteq> None then [Epoch_generator_wrapper] else [])"
  define es1 :: "'a event list" where
    "es1 = (if err = None \<and> skip_training then [Plot_bin_hist] else [])"
  have t0: "trace w0 = trace w @ es0" by (simp add: w0_def es0_def emit_def)
  have "trace (snd (train_loop env sched trl vll epochs fp16 logger sb use_amp m best_prec1
                      start_epoch prof skip_training skip_validation save_checkpoints dir w))
        = trace w2 @ es1"
    using l by (cases "logger = None"; cases err)
      (simp_all add: train_loop_def Let_def w0_def it_def es1_def emit_def)
  then have "events_since w
               (snd (train_loop env sched trl vll epochs fp16 logger sb use_amp m best_prec1
                       start_epoch prof skip_training skip_validation save_checkpoints dir w))
             = es0 @ es @ es1"
    using t t0 by (simp add: events_since_def)
  moreover have "saved (es0 @ es @ es1) = saved es"
    by (simp add: saved_append es0_def es1_def)
  ultimately show ?thesis using c by simp
qed

text \<open>
  C2: in every pass of the loop body of \<^verbatim>\<open>train_loop\<close>, from any values of \<^verbatim>\<open>prec1\<close> and
  \<^verbatim>\<open>best_prec1\<close>, the best value does not decrease; and if a checkpoint is saved, it is
  saved once, its \<^verbatim>\<open>is_best\<close> flag says whether the \<^verbatim>\<open>prec1\<close> of this epoch (the result of
  \<^verbatim>\<open>validate\<close>, unless validation is skipped) is strictly above the best value before,
  and its \<^verbatim>\<open>best_prec1\<close> entry, the new best value, is the maximum of the two. Over a
  whole run the saved checkpoints form a chain from the initial \<^verbatim>\<open>best_prec1\<close>: the best
  value never decreases, and a checkpoint is flagged exactly when it raises it.
\<close>

theorem best_checkpoint:
  "(let r = train_loop_epoch env sched train_loader val_loader fp16 logger should_backup_checkpoint
              use_amp m start_epoch prof skip_training skip_validation save_checkpoints
              checkpoint_dir epoch (prec1, best_prec1) w;
        prec1' = fst (fst (snd r));
        best' = snd (fst (snd r));
        cks = saved (events_since w (snd (snd r)))
    in best_prec1 \<le> best'
       \<and> (cks = [] \<and> best' = best_prec1
          \<or> cks = [(best', best_prec1 < prec1')] \<and> best' = max prec1' best_prec1
            \<and> prec1' = (if skip_validation then prec1
                         else fst (validate val_loader env fp16 logger epoch prof
                                     (epoch = start_epoch)
                                     (snd (train train_loader env sched fp16 logger epoch use_amp
                                             prof m (epoch = start_epoch) w))))))
   \<and> best_chain best_prec1
       (saved (events_since w
          (snd (train_loop env sched train_loader val_loader epochs fp16 logger
                  should_backup_checkpoint use_amp m best_prec1 start_epoch prof skip_training
                  skip_validation save_checkpoints checkpoint_dir w))))"
proof -
  let ?r = "train_loop_epoch env sched train_loader val_loader fp16 logger should_backup_checkpoint
              use_amp m start_epoch prof skip_training skip_validation save_checkpoints
              checkpoint_dir epoch (prec1, best_prec1) w"
  have "?r = (fst ?r, (fst (fst (snd ?r)), snd (fst (snd ?r))), snd (snd ?r))"
    by simp
  from train_loop_epoch_saved[OF this] obtain es where
    t: "trace (snd (snd ?r)) = trace w @ es" and
    c: "saved es = [] \<and> snd (fst (snd ?r)) = best_prec1
        \<or> saved es = [(snd (fst (snd ?r)), best_prec1 < fst (fst (snd ?r)))]
          \<and> snd (fst (snd ?r)) = max (fst (fst (snd ?r))) best_prec1 \<and> \<not> skip_training
          \<and> fst (fst (snd ?r))
            = (if skip_validation then prec1
               else fst (validate val_loader env fp16 logger epoch prof (epoch = start_epoch)
                      (snd (train train_loader env sched fp16 logger epoch use_amp prof m
                              (epoch = start_epoch) w))))"
    by blast
  have ev: "events_since w (snd (snd ?r)) = es"
    using t by (simp add: events_since_def)
  have mono: "best_prec1 \<le> snd (fst (snd ?r))"
    using c by auto
  have body: "saved (events_since w (snd (snd ?r))) = [] \<and> snd (fst (snd ?r)) = best_prec1
        \<or> saved (events_since w (snd (snd ?r)))
            = [(snd (fst (snd ?r)), best_prec1 < fst (fst (snd ?r)))]
          \<and> snd (fst (snd ?r)) = max (fst (fst (snd ?r))) best_prec1
          \<and> fst (fst (snd ?r))
            = (if skip_validation then prec1
               else fst (validate val_loader env fp16 logger epoch prof (epoch = start_epoch)
                      (snd (train train_loader env sched fp16 logger epoch use_amp prof m
                              (epoch = start_epoch) w))))"
    unfolding ev using c by blast
  from mono body train_loop_chain[of best_prec1 w env sched train_loader val_loader epochs fp16
      logger should_backup_checkpoint use_amp m start_epoch prof skip_training skip_validation
      save_checkpoints checkpoint_dir]
  show ?thesis
    unfolding Let_def by blast
qed

text \<open>
  A run of two epochs with a logger: both epochs validate at accuracy 3, the first
  checkpoint raises the best value from 0 and is flagged, the second is not.
\<close>

theorem best_checkpoint_witness:
  "best_chain 0
     (saved (events_since example_world
        (snd (train_loop example_env example_scheduler [0] [3] 2 False (Some Logger) (\<lambda>e. True)
                False 1 0 0 (- 1) False False True ''./'' example_world))))
   \<and> saved (events_since example_world
        (snd (train_loop example_env example_scheduler [0] [3] 2 False (Some Logger) (\<lambda>e. True)
                False 1 0 0 (- 1) False False True ''./'' example_world)))
     = [(3, True), (3, False)]"
proof -
  note t = best_checkpoint[of example_env example_scheduler "[0]" "[3]" False "Some Logger"
      "\<lambda>e. True" False 1 0 "- 1" False False True "''./''" 0 "- 1" 0 example_world 2]
  have a: "best_chain 0
     (saved (events_since example_world
        (snd (train_loop example_env example_scheduler [0] [3] 2 False (Some Logger) (\<lambda>e. True)
                False 1 0 0 (- 1) False False True ''./'' example_world))))"
    using t by (rule conjunct2)
  have b: "saved (events_since example_world
        (snd (train_loop example_env example_scheduler [0] [3] 2 False (Some Logger) (\<lambda>e. True)
                False 1 0 0 (- 1) False False True ''./'' example_world)))
     = [(3, True), (3, False)]"
    by (simp add: train_loop_def train_loop_epoch_def train_def validate_def end_phase_def
        save_phase_def get_train_step_def get_val_step_def backward_pass_def ex_env_simps ex_sched
        Let_def enumerate_eq_zip upt_rec events_since_def emit_def example_world_def
        train_metrics_def val_metrics_def upto_rec1 set_lr_def)
  from a b show ?thesis by simp
qed

text \<open>
  C3 does not hold of the code: \<^verbatim>\<open>train\<close> and \<^verbatim>\<open>validate\<close> guard every use of the
  logger, but the last statement of the loop body of \<^verbatim>\<open>train_loop\<close> calls
  \<^verbatim>\<open>logger.end()\<close> without a guard. With \<^verbatim>\<open>logger = None\<close>, one epoch (\<^verbatim>\<open>start_epoch = 0\<close>,
  \<^verbatim>\<open>epochs = 1\<close>) and no process group, the run makes no call on the logger and ends in
  \<^verbatim>\<open>AttributeError\<close>.
\<close>

theorem no_logger_raises:
  "fst (train_loop example_env example_scheduler [0, 1] [3] 1 False None (\<lambda>e. False) False 1 0 0
          (- 1) False False True ''./'' example_world) = Some AttributeError
   \<and> filter logger_event
        (trace (snd (train_loop example_env example_scheduler [0, 1] [3] 1 False None
                       (\<lambda>e. False) False 1 0 0 (- 1) False False True ''./'' example_world)))
      = []"
  by (simp add: train_loop_def train_loop_epoch_def train_def validate_def end_phase_def
        save_phase_def get_train_step_def get_val_step_def backward_pass_def ex_env_simps ex_sched
        Let_def enumerate_eq_zip upt_rec emit_def example_world_def set_lr_def)

text \<open>
  The same for every run: without a logger, \<^verbatim>\<open>train_loop\<close> returns normally when the
  epoch range is empty, and raises in the first epoch on the coordinator otherwise.
\<close>

lemma empty_range_ok:
  "epochs \<le> start_epoch \<Longrightarrow>
   train_loop env sched train_loader val_loader epochs fp16 None should_backup_checkpoint use_amp m
     best_prec1 start_epoch prof False skip_validation save_checkpoints checkpoint_dir w
   = (None, w)"
  by (simp add: train_loop_def)

lemma none_logger_raises:
  assumes "start_epoch < epochs" and "\<not> is_initialized env \<or> get_rank env = 0"
  shows "fst (train_loop env sched train_loader val_loader epochs fp16 None
                should_backup_checkpoint use_amp m best_prec1 start_epoch prof skip_training
                skip_validation save_checkpoints checkpoint_dir w) \<noteq> None"
proof -
  have rng: "[start_epoch..epochs - 1] = start_epoch # [start_epoch + 1..epochs - 1]"
    using assms(1) by (simp add: upto_rec1)
  let ?body = "train_loop_epoch env sched train_loader val_loader fp16 None
                 should_backup_checkpoint use_amp m start_epoch prof skip_training skip_validation
                 save_checkpoints checkpoint_dir start_epoch (- 1, best_prec1) w"
  have "fst ?body \<noteq> None"
    using assms(2)
    by (auto simp add: train_loop_epoch_def end_phase_def Let_def split: prod.splits option.splits)
  then obtain e pb w1 where "?body = (Some e, pb, w1)"
    by (metis fst_conv not_Some_eq prod.exhaust)
  then show ?thesis
    by (simp add: train_loop_def rng Let_def)
qed

end
